theory Spec2Isabelle
  imports Complex_Main "HOL-Library.Log_Nat"
begin

section \<open>Python values used by robot.py\<close>

subsection \<open>Strings\<close>

text \<open>
  A Python \<^verbatim>\<open>str\<close> is a sequence of Unicode code points. The listing texts and the
  currency markers of \<^verbatim>\<open>robot.py\<close> are Persian, so a string is modelled as the list of
  its code points; \<open>ascii\<close> embeds an ASCII literal.
\<close>

type_synonym pystr = "nat list"

definition ascii :: "string \<Rightarrow> pystr" where
  "ascii s = map of_char s"

text \<open>Exceptions, each with the message that \<^verbatim>\<open>str(e)\<close> gives.\<close>

datatype py_error =
    ValueError pystr
  | IndexError pystr
  | ExternalError pystr
  | OutsideModel

fun str_of_error :: "py_error \<Rightarrow> pystr" where
  "str_of_error (ValueError m) = m"
| "str_of_error (IndexError m) = m"
| "str_of_error (ExternalError m) = m"
| "str_of_error OutsideModel = []"

subsection \<open>Character classes of the \<^verbatim>\<open>re\<close> module on \<^verbatim>\<open>str\<close> patterns\<close>

text \<open>
  \<^verbatim>\<open>\d\<close> matches the characters of Unicode category Nd. In the Unicode Character
  Database (version 14.0, CPython 3.11) they form 66 runs of ten consecutive code points
  with the decimal values 0 to 9; \<open>decimal_starts\<close> lists the code point of each zero.
  \<open>unicode_decimal\<close> is \<^verbatim>\<open>unicodedata.decimal(ch, None)\<close>.
\<close>

definition decimal_starts :: "nat list" where
  "decimal_starts =
    [48, 1632, 1776, 1984, 2406, 2534, 2662, 2790, 2918, 3046, 3174, 3302, 3430, 3558,
     3664, 3792, 3872, 4160, 4240, 6112, 6160, 6470, 6608, 6784, 6800, 6992, 7088, 7232,
     7248, 42528, 43216, 43264, 43472, 43504, 43600, 44016, 65296, 66720, 68912, 69734,
     69872, 69942, 70096, 70384, 70736, 70864, 71248, 71360, 71472, 71904, 72016, 72784,
     73040, 73120, 92768, 92864, 93008, 120782, 120792, 120802, 120812, 120822, 123200,
     123632, 125264, 130032]"

definition unicode_decimal :: "nat \<Rightarrow> nat option" where
  "unicode_decimal c =
     (case filter (\<lambda>s. s \<le> c \<and> c < s + 10) decimal_starts of
        [] \<Rightarrow> None
      | s # _ \<Rightarrow> Some (c - s))"

definition is_decimal :: "nat \<Rightarrow> bool" where
  "is_decimal c = (unicode_decimal c \<noteq> None)"

text \<open>\<^verbatim>\<open>\s\<close> and \<^verbatim>\<open>str.strip()\<close> use the Unicode whitespace of \<^verbatim>\<open>str.isspace\<close>.\<close>

definition whitespace_points :: "nat list" where
  "whitespace_points =
    [9, 10, 11, 12, 13, 28, 29, 30, 31, 32, 133, 160, 5760, 8192, 8193, 8194, 8195, 8196,
     8197, 8198, 8199, 8200, 8201, 8202, 8232, 8233, 8239, 8287, 12288]"

definition is_space :: "nat \<Rightarrow> bool" where
  "is_space c = (c \<in> set whitespace_points)"

subsection \<open>The regular expressions of the extractor\<close>

text \<open>
  The four patterns of \<^verbatim>\<open>PriceExtractor.extract\<close> are sequences of single-character
  items, each a character class under a quantifier, and the items of capturing group 1
  are adjacent. \<open>match_here\<close> is the backtracking matcher of \<^verbatim>\<open>re\<close> on such a
  sequence at one start position: quantifiers are greedy, and a failure of the rest of
  the pattern makes the quantifier give one character back. It returns the text of
  group 1. \<open>re_search\<close> tries the start positions from left to right, as
  \<^verbatim>\<open>re.search\<close> does, and returns \<^verbatim>\<open>m.group(1)\<close> of the first match.

  \<^verbatim>\<open>re.IGNORECASE\<close> compares case-folded characters. No literal character of the
  four patterns has a case and no other character folds to one of them, so a literal
  matches exactly itself.
\<close>

datatype quant = One | Opt | Star | Plus

type_synonym item = "quant \<times> (nat \<Rightarrow> bool) \<times> bool"

fun capture :: "bool \<Rightarrow> pystr \<Rightarrow> nat \<Rightarrow> pystr" where
  "capture g cap c = (if g then cap @ [c] else cap)"

fun match_here :: "item list \<Rightarrow> pystr \<Rightarrow> pystr \<Rightarrow> pystr option" where
  "match_here [] text cap = Some cap"
| "match_here ((One, cls, g) # rest) [] cap = None"
| "match_here ((One, cls, g) # rest) (c # cs) cap =
     (if cls c then match_here rest cs (capture g cap c) else None)"
| "match_here ((Opt, cls, g) # rest) [] cap = match_here rest [] cap"
| "match_here ((Opt, cls, g) # rest) (c # cs) cap =
     (if cls c then
        (case match_here rest cs (capture g cap c) of
           Some r \<Rightarrow> Some r
         | None \<Rightarrow> match_here rest (c # cs) cap)
      else match_here rest (c # cs) cap)"
| "match_here ((Star, cls, g) # rest) [] cap = match_here rest [] cap"
| "match_here ((Star, cls, g) # rest) (c # cs) cap =
     (if cls c then
        (case match_here ((Star, cls, g) # rest) cs (capture g cap c) of
           Some r \<Rightarrow> Some r
         | None \<Rightarrow> match_here rest (c # cs) cap)
      else match_here rest (c # cs) cap)"
| "match_here ((Plus, cls, g) # rest) [] cap = None"
| "match_here ((Plus, cls, g) # rest) (c # cs) cap =
     (if cls c then match_here ((Star, cls, g) # rest) cs (capture g cap c) else None)"

fun re_search :: "item list \<Rightarrow> pystr \<Rightarrow> pystr option" where
  "re_search pat [] = match_here pat [] []"
| "re_search pat (c # cs) =
     (case match_here pat (c # cs) [] of
        Some r \<Rightarrow> Some r
      | None \<Rightarrow> re_search pat cs)"

definition literal :: "pystr \<Rightarrow> item list" where
  "literal s = map (\<lambda>ch. (One, (\<lambda>c. c = ch), False)) s"

text \<open>\<^verbatim>\<open>[\d,]\<close>: a decimal digit or a comma.\<close>

definition digit_or_comma :: "nat \<Rightarrow> bool" where
  "digit_or_comma c = (is_decimal c \<or> c = 44)"

text \<open>\<^verbatim>\<open>([\d,]+)\s?\<close> followed by the unit word.\<close>

definition amount_then :: "pystr \<Rightarrow> item list" where
  "amount_then word = [(Plus, digit_or_comma, True), (Opt, is_space, False)] @ literal word"

text \<open>\<^verbatim>\<open>\$([\d,]+)\<close>.\<close>

definition dollar_pattern :: "item list" where
  "dollar_pattern = literal [36] @ [(Plus, digit_or_comma, True)]"

subsection \<open>Floating-point numbers\<close>

text \<open>
  A Python \<^verbatim>\<open>float\<close> is an IEEE 754 binary64 value: a rational \<open>m * 2 ^ q\<close> with
  \<open>\<bar>m\<bar> < 2 ^ 53\<close> and \<open>- 1074 \<le> q \<le> 971\<close>, an infinity, or NaN (the sign of zero is
  not modelled). Every operation returns the exact result rounded to the nearest such
  value, ties to the even significand, and an infinity from \<open>2 ^ 1024\<close> on.
\<close>

datatype pyfloat = Finite rat | PInf | NInf | NaN

definition round_half_even :: "rat \<Rightarrow> int" where
  "round_half_even x =
     (let f = \<lfloor>x\<rfloor>; d = x - of_int f
      in if d < 1 / 2 then f else if 1 / 2 < d then f + 1 else if even f then f else f + 1)"

text \<open>
  The binary exponent \<open>\<lfloor>log\<^sub>2 x\<rfloor>\<close> of a positive rational, from the bit length of its
  integer part, or of the integer part of its inverse when it is below one.
\<close>

definition floor_log2 :: "rat \<Rightarrow> int" where
  "floor_log2 x = (if 1 \<le> x then bitlen \<lfloor>x\<rfloor> - 1 else - bitlen (\<lceil>1 / x\<rceil> - 1))"

definition round_pos :: "rat \<Rightarrow> pyfloat" where
  "round_pos x =
     (let q = max (floor_log2 x - 52) (- 1074);
          r = of_int (round_half_even (x / 2 powi q)) * 2 powi q
      in if 2 ^ 1024 \<le> r then PInf else Finite r)"

fun fneg :: "pyfloat \<Rightarrow> pyfloat" where
  "fneg (Finite a) = Finite (- a)"
| "fneg PInf = NInf"
| "fneg NInf = PInf"
| "fneg NaN = NaN"

definition round_b64 :: "rat \<Rightarrow> pyfloat" where
  "round_b64 x =
     (if x = 0 then Finite 0 else if 0 < x then round_pos x else fneg (round_pos (- x)))"

text \<open>The sign of a float: \<open>1\<close>, \<open>0\<close> or \<open>- 1\<close>; NaN has none.\<close>

fun fsign :: "pyfloat \<Rightarrow> int option" where
  "fsign (Finite a) = Some (sgn \<lfloor>sgn a\<rfloor>)"
| "fsign PInf = Some 1"
| "fsign NInf = Some (- 1)"
| "fsign NaN = None"

definition inf_of_sign :: "int \<Rightarrow> pyfloat" where
  "inf_of_sign s = (if 0 < s then PInf else if s < 0 then NInf else NaN)"

fun fmul :: "pyfloat \<Rightarrow> pyfloat \<Rightarrow> pyfloat" where
  "fmul (Finite a) (Finite b) = round_b64 (a * b)"
| "fmul x y =
     (case (fsign x, fsign y) of
        (Some s, Some t) \<Rightarrow> inf_of_sign (s * t)
      | _ \<Rightarrow> NaN)"

fun fadd :: "pyfloat \<Rightarrow> pyfloat \<Rightarrow> pyfloat" where
  "fadd (Finite a) (Finite b) = round_b64 (a + b)"
| "fadd NaN y = NaN"
| "fadd x NaN = NaN"
| "fadd PInf NInf = NaN"
| "fadd NInf PInf = NaN"
| "fadd PInf y = PInf"
| "fadd NInf y = NInf"
| "fadd x PInf = PInf"
| "fadd x NInf = NInf"

definition fdiv :: "pyfloat \<Rightarrow> pyfloat \<Rightarrow> pyfloat" where
  "fdiv x y =
     (case (x, y) of
        (Finite a, Finite b) \<Rightarrow> if b = 0 then inf_of_sign \<lfloor>sgn a\<rfloor> else round_b64 (a / b)
      | (Finite a, PInf) \<Rightarrow> Finite 0
      | (Finite a, NInf) \<Rightarrow> Finite 0
      | (PInf, Finite b) \<Rightarrow> if b < 0 then NInf else PInf
      | (NInf, Finite b) \<Rightarrow> if b < 0 then PInf else NInf
      | _ \<Rightarrow> NaN)"

text \<open>
  The order of floats used by \<^verbatim>\<open>min\<close>, \<^verbatim>\<open>max\<close> and sorting; NaN is in no relation.
\<close>

fun fle :: "pyfloat \<Rightarrow> pyfloat \<Rightarrow> bool" where
  "fle NaN y = False"
| "fle x NaN = False"
| "fle NInf y = True"
| "fle x PInf = True"
| "fle (Finite a) (Finite b) = (a \<le> b)"
| "fle x y = False"

text \<open>A float that is zero, a positive number or the positive infinity.\<close>

fun fnonneg :: "pyfloat \<Rightarrow> bool" where
  "fnonneg (Finite a) = (0 \<le> a)"
| "fnonneg PInf = True"
| "fnonneg NInf = False"
| "fnonneg NaN = False"

text \<open>
  \<^verbatim>\<open>float(s)\<close> on a string of decimal digits, the only strings that reach it in
  \<open>extract\<close>: the empty string raises \<^verbatim>\<open>ValueError\<close>, any other digit string (of any
  scripts) denotes its decimal value, correctly rounded. The rest of the grammar of
  \<^verbatim>\<open>float\<close> (signs, fractions, exponents) is outside the model.
\<close>

definition digits_value :: "nat list \<Rightarrow> nat" where
  "digits_value ds = foldl (\<lambda>a d. 10 * a + d) 0 ds"

definition float_error :: py_error where
  "float_error = ValueError (ascii ''could not convert string to float: '' @ [39, 39])"

definition py_float :: "pystr \<Rightarrow> py_error + pyfloat" where
  "py_float s =
     (if s = [] then Inl float_error
      else case those (map unicode_decimal s) of
             None \<Rightarrow> Inl OutsideModel
           | Some ds \<Rightarrow> Inr (round_b64 (of_nat (digits_value ds))))"

section \<open>PriceExtractor\<close>

text \<open>
  \<^verbatim>\<open>str.maketrans("...", "01234567890123456789")\<close>: the Persian digits U+06F0 to
  U+06F9 and the Arabic-Indic digits U+0660 to U+0669, each mapped to its ASCII digit.
\<close>

definition digit_table :: "(nat \<times> nat) list" where
  "digit_table =
     zip [1776, 1777, 1778, 1779, 1780, 1781, 1782, 1783, 1784, 1785,
          1632, 1633, 1634, 1635, 1636, 1637, 1638, 1639, 1640, 1641]
         (ascii ''01234567890123456789'')"

definition translate :: "(nat \<times> nat) list \<Rightarrow> pystr \<Rightarrow> pystr" where
  "translate table text = map (\<lambda>c. case map_of table c of None \<Rightarrow> c | Some d \<Rightarrow> d) text"

text \<open>The keys \<^verbatim>\<open>"toman"\<close>, \<^verbatim>\<open>"rial"\<close>, \<^verbatim>\<open>"dollar"\<close> and \<^verbatim>\<open>"dirham"\<close>.\<close>

datatype currency = Toman | Rial | Dollar | Dirham

text \<open>
  The dictionary \<^verbatim>\<open>patterns\<close> in its insertion order, which is the order in which
  \<^verbatim>\<open>patterns.items()\<close> is traversed. The unit words are
  U+062A U+0648 U+0645 U+0627 U+0646 (toman), U+0631 U+06CC U+0627 U+0644 (rial) and
  U+062F U+0631 U+0647 U+0645 (dirham).
\<close>

definition patterns :: "(currency \<times> item list list) list" where
  "patterns =
     [(Toman, [amount_then [1578, 1608, 1605, 1575, 1606]]),
      (Rial, [amount_then [1585, 1740, 1575, 1604]]),
      (Dollar, [dollar_pattern]),
      (Dirham, [amount_then [1583, 1585, 1607, 1605]])]"

text \<open>
  The dictionary \<^verbatim>\<open>rates\<close>. \<^verbatim>\<open>0.1\<close> is the float nearest to one tenth; the integer
  rates are converted to floats, exactly, by the multiplication.
\<close>

fun rates :: "currency \<Rightarrow> pyfloat" where
  "rates Rial = round_b64 (1 / 10)"
| "rates Dollar = Finite 55000"
| "rates Dirham = Finite 15000"
| "rates Toman = Finite 1"

record reading =
  original :: pyfloat
  currency :: currency
  toman :: pyfloat

text \<open>\<^verbatim>\<open>m.group(1).replace(",", "")\<close>.\<close>

definition strip_commas :: "pystr \<Rightarrow> pystr" where
  "strip_commas g = filter (\<lambda>c. c \<noteq> 44) g"

text \<open>
  The inner loop over the patterns of one currency stops at the first pattern that
  matches; \<open>scan_pats\<close> returns group 1 of that match, \<open>None\<close> when no pattern matches.
\<close>

fun scan_pats :: "item list list \<Rightarrow> pystr \<Rightarrow> pystr option" where
  "scan_pats [] text = None"
| "scan_pats (pat # pats) text =
     (case re_search pat text of
        Some g \<Rightarrow> Some g
      | None \<Rightarrow> scan_pats pats text)"

text \<open>The body under \<^verbatim>\<open>if m:\<close> for the currency \<open>cur\<close> and group 1 equal to \<open>g\<close>.\<close>

definition on_match :: "currency \<Rightarrow> pystr \<Rightarrow> py_error + reading option" where
  "on_match cur g =
     (case py_float (strip_commas g) of
        Inl e \<Rightarrow> Inl e
      | Inr num \<Rightarrow>
          Inr (Some \<lparr>original = num, currency = cur, toman = fmul num (rates cur)\<rparr>))"

text \<open>The outer loop over the currencies, and the final \<^verbatim>\<open>return None\<close>.\<close>

fun scan_patterns :: "(currency \<times> item list list) list \<Rightarrow> pystr \<Rightarrow> py_error + reading option" where
  "scan_patterns [] text = Inr None"
| "scan_patterns ((cur, pats) # others) text =
     (case scan_pats pats text of
        Some g \<Rightarrow> on_match cur g
      | None \<Rightarrow> scan_patterns others text)"

definition PriceExtractor_extract :: "pystr \<Rightarrow> py_error + reading option" where
  "PriceExtractor_extract text = scan_patterns patterns (translate digit_table text)"

section \<open>Analyzer\<close>

text \<open>The dictionary that \<^verbatim>\<open>_fetch_one\<close> builds for a card with a price.\<close>

record product =
  name :: pystr
  price :: pyfloat
  original_currency :: currency
  website :: pystr
  country :: pystr
  url :: pystr

text \<open>
  The dictionary returned by \<^verbatim>\<open>Analyzer.run\<close>: the key \<^verbatim>\<open>"total"\<close> is always there,
  the keys \<^verbatim>\<open>"min"\<close>, \<^verbatim>\<open>"max"\<close>, \<^verbatim>\<open>"mean"\<close> and \<^verbatim>\<open>"median"\<close> only on the second
  return; an absent key is \<open>None\<close>.
\<close>

record analysis =
  total :: nat
  min_value :: "pyfloat option"
  max_value :: "pyfloat option"
  mean_value :: "pyfloat option"
  median_value :: "pyfloat option"

text \<open>
  The reductions of a pandas float column without NaN. On an empty column each of them
  is NaN. The sum runs from left to right; the median is the middle of the sorted
  column, or the mean of the two middle values.
\<close>

fun fmin :: "pyfloat \<Rightarrow> pyfloat \<Rightarrow> pyfloat" where
  "fmin a b = (if fle a b then a else b)"

fun fmax :: "pyfloat \<Rightarrow> pyfloat \<Rightarrow> pyfloat" where
  "fmax a b = (if fle a b then b else a)"

fun series_min :: "pyfloat list \<Rightarrow> pyfloat" where
  "series_min [] = NaN"
| "series_min (x # xs) = foldl fmin x xs"

fun series_max :: "pyfloat list \<Rightarrow> pyfloat" where
  "series_max [] = NaN"
| "series_max (x # xs) = foldl fmax x xs"

definition series_mean :: "pyfloat list \<Rightarrow> pyfloat" where
  "series_mean xs =
     (if xs = [] then NaN
      else fdiv (foldl fadd (Finite 0) xs) (Finite (of_nat (length xs))))"

fun finsert :: "pyfloat \<Rightarrow> pyfloat list \<Rightarrow> pyfloat list" where
  "finsert x [] = [x]"
| "finsert x (y # ys) = (if fle x y then x # y # ys else y # finsert x ys)"

definition fsort :: "pyfloat list \<Rightarrow> pyfloat list" where
  "fsort xs = foldr finsert xs []"

definition series_median :: "pyfloat list \<Rightarrow> pyfloat" where
  "series_median xs =
     (let n = length xs; ys = fsort xs
      in if n = 0 then NaN
         else if odd n then ys ! (n div 2)
         else fdiv (fadd (ys ! (n div 2 - 1)) (ys ! (n div 2))) (Finite 2))"

text \<open>
  \<^verbatim>\<open>Analyzer.run\<close>. \<^verbatim>\<open>pd.to_numeric\<close> leaves a float column as it is, and
  \<^verbatim>\<open>dropna\<close> removes the rows whose price is NaN.
\<close>

definition Analyzer_run :: "product list \<Rightarrow> analysis" where
  "Analyzer_run products =
     (if products = [] then
        \<lparr>total = 0, min_value = None, max_value = None, mean_value = None,
         median_value = None\<rparr>
      else
        let df = filter (\<lambda>x. x \<noteq> NaN) (map price products)
        in \<lparr>total = length df, min_value = Some (series_min df),
            max_value = Some (series_max df), mean_value = Some (series_mean df),
            median_value = Some (series_median df)\<rparr>)"

section \<open>WebRobot\<close>

record term_result =
  search_term :: pystr
  products :: "product list"
  analysis :: analysis

text \<open>\<^verbatim>\<open>report["summary"]["total"]\<close> and \<^verbatim>\<open>report["results"]\<close>.\<close>

record report =
  summary_total :: nat
  results :: "term_result list"

text \<open>
  What the program does not compute itself, as functions of a world:
  \<^item> \<open>scrape\<close>: \<^verbatim>\<open>AsyncScraper.scrape(url)\<close>, the page text or the exception of the
    request (an error, a timeout);
  \<^item> \<open>soup_cards\<close>: the texts \<^verbatim>\<open>card.get_text(" ", strip=True)\<close> of the cards that
    \<^verbatim>\<open>BeautifulSoup(html, "lxml").select(...)\<close> finds, in document order, or the
    exception of the parser;
  \<^item> \<open>finished_at\<close>: the instant at which the fetch of a URL completes;
  \<^item> \<open>save_excel\<close>: \<^verbatim>\<open>Notifier.save_excel(report)\<close>, the path written or the exception
    of the export.
\<close>

record world =
  scrape :: "pystr \<Rightarrow> py_error + pystr"
  soup_cards :: "pystr \<Rightarrow> py_error + pystr list"
  finished_at :: "pystr \<Rightarrow> nat"
  save_excel :: "report \<Rightarrow> py_error + pystr"

text \<open>\<^verbatim>\<open>s.split(sep)\<close> for a one-character separator, and \<^verbatim>\<open>xs[i]\<close>.\<close>

fun split_on :: "nat \<Rightarrow> pystr \<Rightarrow> pystr list" where
  "split_on sep [] = [[]]"
| "split_on sep (c # cs) =
     (if c = sep then [] # split_on sep cs
      else case split_on sep cs of
             [] \<Rightarrow> [[c]]
           | p # ps \<Rightarrow> (c # p) # ps)"

definition subscript :: "'a list \<Rightarrow> nat \<Rightarrow> py_error + 'a" where
  "subscript xs i =
     (if i < length xs then Inr (xs ! i)
      else Inl (IndexError (ascii ''list index out of range'')))"

text \<open>\<^verbatim>\<open>s.replace(old, new)\<close> for a one-character \<^verbatim>\<open>old\<close>.\<close>

definition replace_char :: "nat \<Rightarrow> pystr \<Rightarrow> pystr \<Rightarrow> pystr" where
  "replace_char old new s = concat (map (\<lambda>c. if c = old then new else [c]) s)"

text \<open>The list \<^verbatim>\<open>urls\<close> of \<^verbatim>\<open>WebRobot.search\<close> for one term.\<close>

definition urls :: "pystr \<Rightarrow> pystr list" where
  "urls term =
     [ascii ''https://torob.ir/search/?query='' @ replace_char 32 (ascii ''%20'') term,
      ascii ''https://divar.ir/s/tehran?q='' @ replace_char 32 (ascii ''%20'') term,
      ascii ''https://www.amazon.com/s?k='' @ replace_char 32 (ascii ''+'') term]"

text \<open>
  The loop of \<^verbatim>\<open>_fetch_one\<close> over the cards; an exception of \<open>extract\<close> or of
  \<^verbatim>\<open>url.split("/")[2]\<close> leaves the loop.
\<close>

fun card_loop :: "pystr \<Rightarrow> pystr list \<Rightarrow> product list \<Rightarrow> py_error + product list" where
  "card_loop u [] acc = Inr acc"
| "card_loop u (card_text # cards) acc =
     (case PriceExtractor_extract card_text of
        Inl e \<Rightarrow> Inl e
      | Inr None \<Rightarrow> card_loop u cards acc
      | Inr (Some price_data) \<Rightarrow>
          (case subscript (split_on 47 u) 2 of
             Inl e \<Rightarrow> Inl e
           | Inr site \<Rightarrow>
               card_loop u cards
                 (acc @ [\<lparr>name = take 100 card_text, price = toman price_data,
                          original_currency = currency price_data, website = site,
                          country = ascii ''Iran'', url = u\<rparr>])))"

text \<open>
  \<^verbatim>\<open>WebRobot._fetch_one\<close>: the whole body is inside \<^verbatim>\<open>try\<close>, and
  \<^verbatim>\<open>except Exception\<close> returns the empty list.
\<close>

definition WebRobot_fetch_one :: "world \<Rightarrow> pystr \<Rightarrow> product list" where
  "WebRobot_fetch_one w u =
     (case scrape w u of
        Inl e \<Rightarrow> []
      | Inr html \<Rightarrow>
          (case soup_cards w html of
             Inl e \<Rightarrow> []
           | Inr cards \<Rightarrow>
               (case card_loop u (take 5 cards) [] of
                  Inl e \<Rightarrow> []
                | Inr ps \<Rightarrow> ps)))"

text \<open>
  \<^verbatim>\<open>asyncio.gather\<close>: the awaitables complete in the order of their finishing instants,
  each completion stores its outcome in the slot of its awaitable, and the list of the
  slots is returned once no slot is empty; \<open>None\<close> stands for a gather that never returns.
\<close>

definition gather :: "(nat \<Rightarrow> nat) \<Rightarrow> 'a list \<Rightarrow> 'a list option" where
  "gather finish outcomes =
     those (fold (\<lambda>i slots. slots[i := Some (outcomes ! i)])
              (sort_key finish [0..<length outcomes])
              (replicate (length outcomes) None))"

text \<open>The body of the loop over the terms, up to the \<^verbatim>\<open>append\<close>.\<close>

definition search_term_result :: "world \<Rightarrow> pystr \<Rightarrow> term_result option" where
  "search_term_result w term =
     (case gather (\<lambda>i. finished_at w (urls term ! i)) (map (WebRobot_fetch_one w) (urls term)) of
        None \<Rightarrow> None
      | Some res \<Rightarrow>
          Some \<lparr>search_term = term, products = concat res,
                analysis = Analyzer_run (concat res)\<rparr>)"

fun term_loop :: "world \<Rightarrow> pystr list \<Rightarrow> term_result list \<Rightarrow> term_result list option" where
  "term_loop w [] all_results = Some all_results"
| "term_loop w (term # terms) all_results =
     (case search_term_result w term of
        None \<Rightarrow> None
      | Some r \<Rightarrow> term_loop w terms (all_results @ [r]))"

text \<open>The dictionary \<^verbatim>\<open>report\<close> that \<^verbatim>\<open>WebRobot.search\<close> hands to the export.\<close>

definition search_report :: "world \<Rightarrow> pystr list \<Rightarrow> report option" where
  "search_report w terms =
     (case term_loop w terms [] of
        None \<Rightarrow> None
      | Some all_results \<Rightarrow>
          Some \<lparr>summary_total = sum_list (map (\<lambda>r. length (products r)) all_results),
                results = all_results\<rparr>)"

text \<open>
  \<^verbatim>\<open>WebRobot.search\<close>: the path of the export, or its exception; \<open>None\<close> when the
  coroutine never returns.
\<close>

definition WebRobot_search :: "world \<Rightarrow> pystr list \<Rightarrow> (py_error + pystr) option" where
  "WebRobot_search w terms =
     (case search_report w terms of
        None \<Rightarrow> None
      | Some rep \<Rightarrow> Some (save_excel w rep))"

section \<open>The Flask application\<close>

text \<open>The three shapes of an entry of \<^verbatim>\<open>results_store\<close>, and its key \<^verbatim>\<open>"status"\<close>.\<close>

datatype entry = Processing | Done pystr | Failed pystr

fun entry_status :: "entry \<Rightarrow> pystr" where
  "entry_status Processing = ascii ''processing''"
| "entry_status (Done excel_path) = ascii ''done''"
| "entry_status (Failed reason) = ascii ''failed''"

type_synonym store = "pystr \<rightharpoonup> entry"

text \<open>\<^verbatim>\<open>run_in_thread\<close>; \<open>None\<close> when the search never returns.\<close>

definition run_in_thread :: "world \<Rightarrow> pystr list \<Rightarrow> pystr \<Rightarrow> store \<Rightarrow> store option" where
  "run_in_thread w terms task_id st =
     (case WebRobot_search w terms of
        None \<Rightarrow> None
      | Some (Inr excel_path) \<Rightarrow> Some (st(task_id \<mapsto> Done excel_path))
      | Some (Inl e) \<Rightarrow> Some (st(task_id \<mapsto> Failed (str_of_error e))))"

text \<open>\<^verbatim>\<open>str(n)\<close> of an integer, and \<^verbatim>\<open>int(x)\<close> of a finite float.\<close>

function str_nat :: "nat \<Rightarrow> pystr" where
  "str_nat n = (if n < 10 then [48 + n] else str_nat (n div 10) @ [48 + n mod 10])"
  by pat_completeness auto
termination
  by (relation "measure id") auto

declare str_nat.simps [simp del]

definition str_int :: "int \<Rightarrow> pystr" where
  "str_int i = (if i < 0 then 45 # str_nat (nat (- i)) else str_nat (nat i))"

definition int_of_float :: "rat \<Rightarrow> int" where
  "int_of_float x = (if 0 \<le> x then \<lfloor>x\<rfloor> else \<lceil>x\<rceil>)"

text \<open>\<^verbatim>\<open>s.strip()\<close>.\<close>

definition strip :: "pystr \<Rightarrow> pystr" where
  "strip s = rev (dropWhile is_space (rev (dropWhile is_space s)))"

text \<open>
  The state of the server process: the dictionary \<^verbatim>\<open>results_store\<close> and the threads
  that \<^verbatim>\<open>index\<close> has started and that have not written their result yet, each with its
  arguments.
\<close>

record server =
  results_store :: store
  threads :: "(pystr list \<times> pystr) list"

datatype request = GET | POST pystr

datatype response =
    Page
  | Redirect_index
  | Redirect_result pystr

text \<open>
  \<^verbatim>\<open>index\<close>, with the reading \<open>now\<close> of \<^verbatim>\<open>time.time()\<close>; the argument of \<open>POST\<close> is
  the form field \<^verbatim>\<open>terms\<close>.
\<close>

definition index :: "rat \<Rightarrow> request \<Rightarrow> server \<Rightarrow> response \<times> server" where
  "index now req srv =
     (case req of
        GET \<Rightarrow> (Page, srv)
      | POST form_terms \<Rightarrow>
          let raw = strip form_terms
          in if raw = [] then (Redirect_index, srv)
             else
               let terms = take 10 (filter (\<lambda>t. t \<noteq> []) (map strip (split_on 10 raw)));
                   task_id = str_int (int_of_float now)
               in (Redirect_result task_id,
                   srv\<lparr>results_store := (results_store srv)(task_id \<mapsto> Processing),
                       threads := threads srv @ [(terms, task_id)]\<rparr>))"

text \<open>
  One started thread runs \<^verbatim>\<open>run_in_thread\<close> to its end and writes its entry; \<open>None\<close>
  when there is no such thread or it never ends.
\<close>

definition thread_finishes :: "world \<Rightarrow> nat \<Rightarrow> server \<Rightarrow> server option" where
  "thread_finishes w k srv =
     (if k < length (threads srv) then
        (case run_in_thread w (fst (threads srv ! k)) (snd (threads srv ! k))
                (results_store srv) of
           None \<Rightarrow> None
         | Some st \<Rightarrow>
             Some (srv\<lparr>results_store := st,
                       threads := take k (threads srv) @ drop (Suc k) (threads srv)\<rparr>))
      else None)"

text \<open>
  \<^verbatim>\<open>api_status\<close>: the HTTP status code, the key \<^verbatim>\<open>"status"\<close> of the JSON body and its
  key \<^verbatim>\<open>"report"\<close> when there is one.
\<close>

record status_json =
  status :: pystr
  report_field :: "entry option"

definition api_status :: "pystr \<Rightarrow> server \<Rightarrow> status_json \<times> nat" where
  "api_status task_id srv =
     (case results_store srv task_id of
        None \<Rightarrow> (\<lparr>status = ascii ''not_found'', report_field = None\<rparr>, 404)
      | Some e \<Rightarrow> (\<lparr>status = ascii ''done'', report_field = Some e\<rparr>, 200))"

section \<open>Closed forms and sample data\<close>

text \<open>
  The result of one pass of the loop over the terms, with the lists of the three fetches
  in the order of \<open>urls\<close>.
\<close>

definition term_result_of :: "world \<Rightarrow> pystr \<Rightarrow> term_result" where
  "term_result_of w term =
     \<lparr>search_term = term, products = concat (map (WebRobot_fetch_one w) (urls term)),
      analysis = Analyzer_run (concat (map (WebRobot_fetch_one w) (urls term)))\<rparr>"

text \<open>
  A product with a given price, and a world in which the first source of the term
  \<open>"phone"\<close> times out, every other page has one card with the text \<open>"$500"\<close>, a longer
  URL takes longer to fetch, and the export succeeds.
\<close>

definition sample_product :: "pyfloat \<Rightarrow> product" where
  "sample_product x =
     \<lparr>name = ascii ''phone'', price = x, original_currency = Toman,
      website = ascii ''torob.ir'', country = ascii ''Iran'',
      url = ascii ''https://torob.ir/search/?query=phone''\<rparr>"

definition sample_world :: world where
  "sample_world =
     \<lparr>scrape = (\<lambda>u. if u = urls (ascii ''phone'') ! 0
                      then Inl (ExternalError (ascii ''timeout'')) else Inr u),
      soup_cards = (\<lambda>html. Inr [ascii ''$500'']),
      finished_at = (\<lambda>u. length u),
      save_excel = (\<lambda>rep. Inr (ascii ''price_report.xlsx''))\<rparr>"

text \<open>
  The server before any request, and the sample world with an export that raises.
\<close>

definition empty_server :: server where
  "empty_server = \<lparr>results_store = Map.empty, threads = []\<rparr>"

definition failing_export_world :: world where
  "failing_export_world =
     sample_world\<lparr>save_excel := (\<lambda>rep. Inl (ExternalError (ascii ''disk full'')))\<rparr>"

section \<open>Properties of the Python values\<close>

subsection \<open>Evaluating and bounding the rounding\<close>

lemma bitlen_numeral [simp]:
  "bitlen 1 = 1"
  "bitlen (numeral (Num.Bit0 n)) = bitlen (numeral n) + 1"
  "bitlen (numeral (Num.Bit1 n)) = bitlen (numeral n) + 1"
  by (subst compute_bitlen, simp)+

lemma floor_rat_numeral [simp]:
  "\<lfloor>numeral a / numeral b :: rat\<rfloor> = numeral a div numeral b"
  "\<lfloor>1 / numeral b :: rat\<rfloor> = 1 div numeral b"
  by (metis floor_divide_of_int_eq of_int_numeral, metis floor_divide_of_int_eq of_int_numeral of_int_1)

lemma ceiling_rat_numeral [simp]:
  "\<lceil>numeral a / numeral b :: rat\<rceil> = - (- numeral a div numeral b)"
  "\<lceil>1 / numeral b :: rat\<rceil> = - (- 1 div numeral b)"
  unfolding ceiling_def
  by (metis floor_divide_of_int_eq of_int_numeral of_int_minus minus_divide_left,
      metis floor_divide_of_int_eq of_int_numeral of_int_minus minus_divide_left of_int_1)

lemma floor_log2_bounds:
  assumes "0 < x"
  shows "2 powi floor_log2 x \<le> x \<and> x < 2 powi (floor_log2 x + 1)"
proof (cases "1 \<le> x")
  case True
  define n where "n = \<lfloor>x\<rfloor>"
  have n: "0 < n" using True by (simp add: n_def)
  have b: "1 \<le> bitlen n" using n bitlen_eq_zero_iff[of n] bitlen_nonneg[of n] by linarith
  from bitlen_bounds[OF n] have lo: "2 ^ nat (bitlen n - 1) \<le> n" and hi: "n < 2 ^ nat (bitlen n)"
    by simp_all
  have e: "floor_log2 x = bitlen n - 1" using True by (simp add: floor_log2_def n_def)
  have "(2::rat) powi (bitlen n - 1) = 2 ^ nat (bitlen n - 1)"
    using b by (simp add: power_int_def)
  also have "\<dots> = of_int (2 ^ nat (bitlen n - 1))" by simp
  also have "\<dots> \<le> of_int n" using lo by (simp only: of_int_le_iff)
  also have "\<dots> \<le> x" by (simp add: n_def)
  finally have 1: "2 powi floor_log2 x \<le> x" by (simp add: e)
  have "x < of_int (n + 1)" using floor_correct[of x] by (simp add: n_def)
  also have "\<dots> \<le> of_int (2 ^ nat (bitlen n))" using hi by (simp only: of_int_le_iff)
  also have "\<dots> = (2::rat) powi (bitlen n)" using b by (simp add: power_int_def)
  finally have "x < 2 powi (floor_log2 x + 1)" by (simp add: e)
  with 1 show ?thesis by simp
next
  case False
  define y where "y = 1 / x"
  have y: "1 < y" using False assms by (simp add: y_def)
  have xy: "x = 1 / y" by (simp add: y_def)
  define n where "n = \<lceil>y\<rceil>"
  have n2: "1 < n" using y by (simp add: n_def less_ceiling_iff)
  define k where "k = bitlen (n - 1)"
  have n1: "0 < n - 1" using n2 by simp
  have k1: "1 \<le> k" using n1 bitlen_eq_zero_iff[of "n - 1"] bitlen_nonneg[of "n - 1"]
    unfolding k_def by linarith
  from bitlen_bounds[OF n1] have lo: "2 ^ nat (k - 1) \<le> n - 1" and hi: "n - 1 < 2 ^ nat k"
    by (simp_all add: k_def)
  have e: "floor_log2 x = - k" using False by (simp add: floor_log2_def k_def n_def y_def)
  have "y \<le> of_int n" by (simp add: n_def)
  also have "\<dots> \<le> of_int (2 ^ nat k)" using hi by (simp only: of_int_le_iff)
  finally have yk: "y \<le> 2 ^ nat k" by simp
  have "of_int (2 ^ nat (k - 1)) \<le> (of_int (n - 1) :: rat)" using lo by (simp only: of_int_le_iff)
  also have "\<dots> < y" using ceiling_correct[of y] by (simp add: n_def)
  finally have ky: "2 ^ nat (k - 1) < y" by simp
  have p1: "(2::rat) powi (- k) = 1 / 2 ^ nat k"
    using k1 by (simp add: power_int_def power_one_over inverse_eq_divide)
  have p2: "(2::rat) powi (1 - k) = 1 / 2 ^ nat (k - 1)"
    using k1 by (auto simp add: power_int_def power_one_over inverse_eq_divide)
  have "1 / 2 ^ nat k \<le> 1 / y" using yk y by (simp add: frac_le)
  then have "2 powi (- k) \<le> x" by (simp add: p1 xy)
  then have 1: "2 powi floor_log2 x \<le> x" by (simp add: e)
  have "1 / y < 1 / 2 ^ nat (k - 1)" using ky by (simp add: frac_less2)
  then have "x < 2 powi (1 - k)" by (simp add: p2 xy)
  then have "x < 2 powi (floor_log2 x + 1)" by (simp add: e)
  with 1 show ?thesis by simp
qed

lemma round_half_even_nearest: "\<bar>of_int (round_half_even x) - x\<bar> \<le> 1 / 2"
proof -
  define f where "f = \<lfloor>x\<rfloor>"
  define d where "d = x - of_int f"
  have d: "0 \<le> d" "d < 1" using floor_correct[of x] by (simp_all add: d_def f_def)
  have r: "round_half_even x = (if d < 1 / 2 then f else if 1 / 2 < d then f + 1 else if even f then f else f + 1)"
    by (simp add: round_half_even_def Let_def d_def f_def)
  have "\<bar>of_int (round_half_even x) - (of_int f + d)\<bar> \<le> 1 / 2"
    unfolding r using d by (auto simp add: abs_if)
  then show ?thesis by (simp add: d_def)
qed

lemma round_half_even_of_int: "round_half_even (of_int k) = k"
  by (simp add: round_half_even_def)

lemma round_half_even_nonneg: "0 \<le> x \<Longrightarrow> 0 \<le> round_half_even x"
  by (auto simp add: round_half_even_def Let_def)

lemma round_pos_nonneg: "0 < x \<Longrightarrow> fnonneg (round_pos x)"
  by (auto simp add: round_pos_def Let_def intro!: mult_nonneg_nonneg round_half_even_nonneg divide_nonneg_nonneg)

lemma round_b64_nonneg: "0 \<le> x \<Longrightarrow> fnonneg (round_b64 x)"
  by (auto simp add: round_b64_def round_pos_nonneg)

lemma bitlen_le_53:
  assumes "0 < k" "k < 2 ^ 53"
  shows "bitlen k \<le> 53" "1 \<le> bitlen k"
proof -
  from bitlen_bounds[OF assms(1)] have lo: "2 ^ nat (bitlen k - 1) \<le> k" by simp
  with assms(2) have "(2::int) ^ nat (bitlen k - 1) < 2 ^ 53" by linarith
  then have "nat (bitlen k - 1) < 53" by (rule power_less_imp_less_exp[rotated]) simp
  then show "bitlen k \<le> 53" by linarith
  show "1 \<le> bitlen k" using assms(1) bitlen_eq_zero_iff[of k] bitlen_nonneg[of k] by linarith
qed

lemma round_b64_of_nat:
  assumes "n < 2 ^ 53"
  shows "round_b64 (of_nat n) = Finite (of_nat n)"
proof (cases "n = 0")
  case True
  then show ?thesis by (simp add: round_b64_def)
next
  case False
  define k where "k = int n"
  have k: "0 < k" "k < 2 ^ 53" using False assms by (simp_all add: k_def)
  define e where "e = bitlen k - 1"
  have e: "0 \<le> e" "e \<le> 52" using bitlen_le_53[OF k] by (simp_all add: e_def)
  have x: "(of_nat n :: rat) = of_int k" by (simp add: k_def)
  have fl: "floor_log2 (of_int k) = e"
    using k by (simp add: floor_log2_def e_def)
  have q: "max (e - 52) (- 1074) = e - 52" using e by simp
  have pw: "(2::rat) powi (e - 52) = inverse (2 ^ nat (52 - e))"
    using e by (auto simp add: power_int_def power_one_over inverse_eq_divide)
  have scaled: "rat_of_int k / (2 powi (e - 52)) = of_int (k * 2 ^ nat (52 - e))"
    by (simp add: pw divide_inverse)
  have unscale: "of_int (k * 2 ^ nat (52 - e)) * (2::rat) powi (e - 52) = of_int k"
    by (simp add: pw)
  have small: "\<not> (2::rat) ^ 1024 \<le> of_int k"
  proof -
    have "rat_of_int k < of_int (2 ^ 53)" using k(2) by (simp only: of_int_less_iff)
    also have "\<dots> \<le> 2 ^ 1024" by simp
    finally show ?thesis by simp
  qed
  have "round_pos (of_int k) = Finite (of_int k)"
    unfolding round_pos_def fl q Let_def scaled round_half_even_of_int unscale
    using small by simp
  then show ?thesis using k(1) by (simp add: round_b64_def x)
qed

subsection \<open>The matcher and the loops of the extractor\<close>

lemma match_here_captured:
  "match_here items t cap = Some r \<Longrightarrow>
   \<exists>new. r = cap @ new \<and> (\<forall>c\<in>set new. \<exists>q cls. (q, cls, True) \<in> set items \<and> cls c)"
proof (induction items t cap arbitrary: r rule: match_here.induct)
  case (1 t cap)
  then show ?case by simp
next
  case (2 cls g rest cap)
  then show ?case by simp
next
  case (3 cls g rest c cs cap)
  then show ?case by (fastforce split: if_splits)
next
  case (4 cls g rest cap)
  then show ?case by fastforce
next
  case (5 cls g rest c cs cap)
  then show ?case by (fastforce split: if_splits option.splits)
next
  case (6 cls g rest cap)
  then show ?case by fastforce
next
  case (7 cls g rest c cs cap)
  then show ?case by (fastforce split: if_splits option.splits)
next
  case (8 cls g rest cap)
  then show ?case by simp
next
  case (9 cls g rest c cs cap)
  then show ?case by (fastforce split: if_splits)
qed

lemma re_search_captured:
  "re_search pat t = Some g \<Longrightarrow>
   \<forall>c\<in>set g. \<exists>q cls. (q, cls, True) \<in> set pat \<and> cls c"
proof (induction t)
  case Nil
  then show ?case using match_here_captured[of pat "[]" "[]" g] by simp
next
  case (Cons c cs)
  then show ?case using match_here_captured[of pat "c # cs" "[]" g]
    by (auto split: option.splits)
qed


lemma grouped_item_amount_then:
  "(q, cls, True) \<in> set (amount_then word) \<Longrightarrow> cls = digit_or_comma"
  by (auto simp add: amount_then_def literal_def)

lemma grouped_item_dollar:
  "(q, cls, True) \<in> set dollar_pattern \<Longrightarrow> cls = digit_or_comma"
  by (auto simp add: dollar_pattern_def literal_def)

lemma scan_pats_Some:
  "scan_pats pats t = Some g \<Longrightarrow> \<exists>p\<in>set pats. re_search p t = Some g"
  by (induction pats) (auto split: option.splits)

lemma scan_pats_None:
  "scan_pats pats t = None \<longleftrightarrow> (\<forall>p\<in>set pats. re_search p t = None)"
  by (induction pats) (auto split: option.splits)

lemma patterns_group_chars:
  assumes "cp \<in> set patterns" "scan_pats (snd cp) t = Some g"
  shows "\<forall>c\<in>set g. digit_or_comma c"
proof -
  from scan_pats_Some[OF assms(2)] obtain p where p: "p \<in> set (snd cp)" "re_search p t = Some g"
    by blast
  from assms(1) p(1) have "(\<exists>word. p = amount_then word) \<or> p = dollar_pattern"
    by (auto simp add: patterns_def)
  with re_search_captured[OF p(2)] show ?thesis
    by (metis grouped_item_amount_then grouped_item_dollar)
qed

lemma those_unicode_decimal:
  "\<forall>c\<in>set s. is_decimal c \<Longrightarrow> \<exists>ds. those (map unicode_decimal s) = Some ds"
  by (induction s) (auto simp add: is_decimal_def)

lemma strip_commas_decimal:
  "\<forall>c\<in>set g. digit_or_comma c \<Longrightarrow> \<forall>c\<in>set (strip_commas g). is_decimal c"
  by (auto simp add: strip_commas_def digit_or_comma_def)

lemma strip_commas_Nil: "strip_commas g = [] \<longleftrightarrow> (\<forall>c\<in>set g. c = 44)"
  by (auto simp add: strip_commas_def filter_empty_conv)

lemma comma_not_decimal: "\<not> is_decimal 44"
  by (simp add: is_decimal_def unicode_decimal_def decimal_starts_def)

lemma on_match_commas:
  "\<forall>c\<in>set g. c = 44 \<Longrightarrow> on_match cur g = Inl float_error"
  using strip_commas_Nil[of g] by (simp add: on_match_def py_float_def)

lemma on_match_digits:
  assumes "\<forall>c\<in>set g. digit_or_comma c" "\<exists>c\<in>set g. c \<noteq> 44"
  shows "\<exists>ds. those (map unicode_decimal (strip_commas g)) = Some ds \<and>
           on_match cur g =
             Inr (Some \<lparr>original = round_b64 (of_nat (digits_value ds)), currency = cur,
                        toman = fmul (round_b64 (of_nat (digits_value ds))) (rates cur)\<rparr>)"
proof -
  from those_unicode_decimal[OF strip_commas_decimal[OF assms(1)]]
  obtain ds where ds: "those (map unicode_decimal (strip_commas g)) = Some ds" by blast
  from assms(2) have "strip_commas g \<noteq> []" by (simp add: strip_commas_Nil)
  with ds show ?thesis by (simp add: on_match_def py_float_def)
qed

lemma scan_patterns_first:
  "i < length ps \<Longrightarrow> ps ! i = (c, pats) \<Longrightarrow> scan_pats pats t = Some g \<Longrightarrow>
   \<forall>j<i. scan_pats (snd (ps ! j)) t = None \<Longrightarrow> scan_patterns ps t = on_match c g"
proof (induction ps arbitrary: i)
  case Nil
  then show ?case by simp
next
  case (Cons a ps)
  obtain c' pats' where a: "a = (c', pats')" by (cases a)
  show ?case
  proof (cases i)
    case 0
    with Cons.prems a show ?thesis by simp
  next
    case (Suc k)
    from Cons.prems(4) Suc have "scan_pats pats' t = None" using a by force
    moreover have "scan_patterns ps t = on_match c g"
    proof (rule Cons.IH)
      show "k < length ps" using Cons.prems(1) Suc by simp
      show "ps ! k = (c, pats)" using Cons.prems(2) Suc by simp
      show "scan_pats pats t = Some g" by (rule Cons.prems(3))
      show "\<forall>j<k. scan_pats (snd (ps ! j)) t = None"
        using Cons.prems(4) Suc by force
    qed
    ultimately show ?thesis using a by simp
  qed
qed

lemma scan_patterns_cases:
  "(scan_patterns ps t = Inr None \<and> (\<forall>cp\<in>set ps. scan_pats (snd cp) t = None)) \<or>
   (\<exists>i c pats g. i < length ps \<and> ps ! i = (c, pats) \<and> scan_pats pats t = Some g \<and>
      (\<forall>j<i. scan_pats (snd (ps ! j)) t = None) \<and> scan_patterns ps t = on_match c g)"
proof (induction ps)
  case Nil
  then show ?case by simp
next
  case (Cons a ps)
  obtain c' pats' where a: "a = (c', pats')" by (cases a)
  show ?case
  proof (cases "scan_pats pats' t")
    case (Some g)
    have "0 < length (a # ps) \<and> (a # ps) ! 0 = (c', pats') \<and> scan_pats pats' t = Some g \<and>
      (\<forall>j<0. scan_pats (snd ((a # ps) ! j)) t = None) \<and> scan_patterns (a # ps) t = on_match c' g"
      using a Some by simp
    then show ?thesis by blast
  next
    case None
    from Cons.IH show ?thesis
    proof
      assume "scan_patterns ps t = Inr None \<and> (\<forall>cp\<in>set ps. scan_pats (snd cp) t = None)"
      then show ?thesis using a None by simp
    next
      assume "\<exists>i c pats g. i < length ps \<and> ps ! i = (c, pats) \<and> scan_pats pats t = Some g \<and>
        (\<forall>j<i. scan_pats (snd (ps ! j)) t = None) \<and> scan_patterns ps t = on_match c g"
      then obtain i c pats g where h: "i < length ps" "ps ! i = (c, pats)"
        "scan_pats pats t = Some g" "\<forall>j<i. scan_pats (snd (ps ! j)) t = None"
        "scan_patterns ps t = on_match c g" by blast
      have "Suc i < length (a # ps) \<and> (a # ps) ! Suc i = (c, pats) \<and> scan_pats pats t = Some g \<and>
        (\<forall>j<Suc i. scan_pats (snd ((a # ps) ! j)) t = None) \<and>
        scan_patterns (a # ps) t = on_match c g"
        using h a None by (auto simp add: less_Suc_eq_0_disj)
      then show ?thesis by blast
    qed
  qed
qed

lemma on_match_not_None: "on_match c g \<noteq> Inr None"
  by (simp add: on_match_def split: sum.splits)


lemmas eval_float = round_b64_def round_pos_def floor_log2_def round_half_even_def Let_def

lemmas eval_extract =
  PriceExtractor_extract_def patterns_def translate_def digit_table_def amount_then_def
  literal_def ascii_def digit_or_comma_def is_decimal_def unicode_decimal_def
  decimal_starts_def is_space_def whitespace_points_def dollar_pattern_def on_match_def
  py_float_def strip_commas_def digits_value_def

lemma rates_Rial: "rates Rial = Finite (3602879701896397 / 36028797018963968)"
  by (simp add: eval_float)

lemma rates_positive: "\<exists>b. rates c = Finite b \<and> 0 < b"
proof (cases c)
  case Rial
  have "rates Rial = Finite (3602879701896397 / 36028797018963968) \<and>
    (0::rat) < 3602879701896397 / 36028797018963968"
    using rates_Rial by simp
  then show ?thesis unfolding Rial by (rule exI)
qed simp_all

lemma fmul_nonneg: "fnonneg x \<Longrightarrow> 0 < b \<Longrightarrow> fnonneg (fmul x (Finite b))"
  by (cases x) (simp_all add: round_b64_nonneg inf_of_sign_def)

lemma first_match_unique:
  assumes "i < length ps" "scan_pats (snd (ps ! i)) t = Some g"
    "\<forall>j<i. scan_pats (snd (ps ! j)) t = None"
    "k < length ps" "scan_pats (snd (ps ! k)) t = Some h"
    "\<forall>j<k. scan_pats (snd (ps ! j)) t = None"
  shows "k = i \<and> h = g"
proof -
  have "\<not> k < i" using assms(3,5) by auto
  moreover have "\<not> i < k" using assms(2,6) by auto
  ultimately have "k = i" by simp
  with assms(2,5) show ?thesis by simp
qed

lemma extract_Some_on_match:
  assumes "PriceExtractor_extract text = Inr (Some r)"
  shows "\<exists>c g. on_match c g = Inr (Some r)"
proof -
  from scan_patterns_cases[of patterns "translate digit_table text"] assms
  show ?thesis unfolding PriceExtractor_extract_def by (metis option.distinct(1) sum.inject(2))
qed

lemma on_match_Some:
  assumes "on_match c g = Inr (Some r)"
  shows "\<exists>x. fnonneg x \<and> original r = x \<and> currency r = c \<and> toman r = fmul x (rates c)"
proof -
  from assms obtain num where n: "py_float (strip_commas g) = Inr num"
    and r: "r = \<lparr>original = num, currency = c, toman = fmul num (rates c)\<rparr>"
    by (auto simp add: on_match_def split: sum.splits)
  from n have "fnonneg num"
    by (auto simp add: py_float_def round_b64_nonneg split: if_splits option.splits)
  with r show ?thesis by simp
qed

lemma fmul_of_nat:
  "n * m < 2 ^ 53 \<Longrightarrow> fmul (Finite (of_nat n)) (Finite (of_nat m)) = Finite (of_nat (n * m))"
  using round_b64_of_nat[of "n * m"] by simp

subsection \<open>The analyzer, the gather and the loops of the robot\<close>

lemmas eval_series =
  series_mean_def series_median_def fsort_def fdiv_def

lemma fold_slots:
  "length slots = length outcomes \<Longrightarrow> \<forall>i\<in>set order. i < length outcomes \<Longrightarrow>
   length (fold (\<lambda>i s. s[i := Some (outcomes ! i)]) order slots) = length outcomes \<and>
   (\<forall>i<length outcomes.
      fold (\<lambda>i s. s[i := Some (outcomes ! i)]) order slots ! i =
        (if i \<in> set order then Some (outcomes ! i) else slots ! i))"
proof (induction order arbitrary: slots)
  case Nil
  then show ?case by simp
next
  case (Cons k order)
  have "length (slots[k := Some (outcomes ! k)]) = length outcomes" using Cons.prems(1) by simp
  from Cons.IH[OF this] Cons.prems show ?case
    by (auto simp add: nth_list_update)
qed

lemma those_map_Some: "those (map Some xs) = Some xs"
  by (induction xs) simp_all

lemma gather_returns: "gather finish outcomes = Some outcomes"
proof -
  let ?n = "length outcomes"
  let ?order = "sort_key finish [0..<?n]"
  have set: "set ?order = {0..<?n}" by simp
  have "length (replicate ?n (None :: 'a option)) = ?n" by simp
  from fold_slots[OF this, of ?order] set
  have len: "length (fold (\<lambda>i s. s[i := Some (outcomes ! i)]) ?order (replicate ?n None)) = ?n"
    and nth: "\<forall>i<?n. fold (\<lambda>i s. s[i := Some (outcomes ! i)]) ?order (replicate ?n None) ! i =
        Some (outcomes ! i)"
    by auto
  have "fold (\<lambda>i s. s[i := Some (outcomes ! i)]) ?order (replicate ?n None) = map Some outcomes"
    by (rule nth_equalityI) (use len nth in auto)
  then show ?thesis by (simp add: gather_def those_map_Some)
qed

lemma search_term_result_eq:
  "search_term_result w term =
     Some \<lparr>search_term = term, products = concat (map (WebRobot_fetch_one w) (urls term)),
           analysis = Analyzer_run (concat (map (WebRobot_fetch_one w) (urls term)))\<rparr>"
  by (simp add: search_term_result_def gather_returns)

lemma term_loop_eq:
  "term_loop w terms acc = Some (acc @ map (term_result_of w) terms)"
  by (induction terms arbitrary: acc) (simp_all add: search_term_result_eq term_result_of_def)

lemma search_report_eq:
  "search_report w terms =
     Some \<lparr>summary_total = sum_list (map (\<lambda>r. length (products r)) (map (term_result_of w) terms)),
           results = map (term_result_of w) terms\<rparr>"
  by (simp add: search_report_def term_loop_eq)

lemma fetch_one_finished_at:
  "WebRobot_fetch_one (w\<lparr>finished_at := f\<rparr>) = WebRobot_fetch_one w"
  by (rule ext) (simp add: WebRobot_fetch_one_def split: sum.splits)

lemma term_result_of_finished_at:
  "term_result_of (w\<lparr>finished_at := f\<rparr>) = term_result_of w"
  by (rule ext) (simp add: term_result_of_def fetch_one_finished_at)

lemma card_loop_country:
  "card_loop u cards acc = Inr ps \<Longrightarrow> \<forall>p\<in>set acc. country p = ascii ''Iran'' \<Longrightarrow>
   \<forall>p\<in>set ps. country p = ascii ''Iran''"
proof (induction cards arbitrary: acc)
  case Nil
  then show ?case by simp
next
  case (Cons c cards)
  show ?case
  proof (cases "PriceExtractor_extract c")
    case (Inl e)
    with Cons.prems show ?thesis by simp
  next
    case (Inr ro)
    show ?thesis
    proof (cases ro)
      case None
      with Inr Cons show ?thesis by simp
    next
      case (Some pd)
      show ?thesis
      proof (cases "subscript (split_on 47 u) 2")
        case (Inl e)
        with Inr Some Cons.prems show ?thesis by simp
      next
        case site: (Inr site)
        let ?acc = "acc @ [\<lparr>name = take 100 c, price = toman pd,
                          original_currency = currency pd, website = site,
                          country = ascii ''Iran'', url = u\<rparr>]"
        have "card_loop u cards ?acc = Inr ps" using Cons.prems(1) Inr Some site by simp
        moreover have "\<forall>p\<in>set ?acc. country p = ascii ''Iran''" using Cons.prems(2) by simp
        ultimately show ?thesis by (rule Cons.IH)
      qed
    qed
  qed
qed

lemma fetch_one_country: "\<forall>p\<in>set (WebRobot_fetch_one w u). country p = ascii ''Iran''"
proof (cases "scrape w u")
  case (Inl e)
  then show ?thesis by (simp add: WebRobot_fetch_one_def)
next
  case html: (Inr html)
  show ?thesis
  proof (cases "soup_cards w html")
    case (Inl e)
    with html show ?thesis by (simp add: WebRobot_fetch_one_def)
  next
    case cards: (Inr cards)
    show ?thesis
    proof (cases "card_loop u (take 5 cards) []")
      case (Inl e)
      with html cards show ?thesis by (simp add: WebRobot_fetch_one_def)
    next
      case (Inr ps)
      from card_loop_country[OF this] have "\<forall>p\<in>set ps. country p = ascii ''Iran''" by simp
      with html cards Inr show ?thesis by (simp add: WebRobot_fetch_one_def)
    qed
  qed
qed

lemmas eval_urls = urls_def replace_char_def ascii_def

lemma sample_amazon:
  "WebRobot_fetch_one sample_world (urls (ascii ''phone'') ! 2) =
     [\<lparr>name = ascii ''$500'', price = Finite 27500000, original_currency = Dollar,
       website = ascii ''www.amazon.com'', country = ascii ''Iran'',
       url = ascii ''https://www.amazon.com/s?k=phone''\<rparr>]"
proof -
  have e: "PriceExtractor_extract (ascii ''$500'') =
     Inr (Some \<lparr>original = Finite 500, currency = Dollar, toman = Finite 27500000\<rparr>)"
    by (simp add: eval_extract eval_float)
  have u: "urls (ascii ''phone'') ! 2 = ascii ''https://www.amazon.com/s?k=phone''"
    by (simp add: eval_urls)
  have n: "urls (ascii ''phone'') ! 2 \<noteq> urls (ascii ''phone'') ! 0"
    by (simp add: eval_urls)
  have s: "subscript (split_on 47 (ascii ''https://www.amazon.com/s?k=phone'')) 2 =
     Inr (ascii ''www.amazon.com'')"
    by (simp add: subscript_def ascii_def)
  have t: "take 100 (ascii ''$500'') = ascii ''$500''" by (simp add: ascii_def)
  show ?thesis
    unfolding WebRobot_fetch_one_def
    using n by (simp add: sample_world_def u e s t)
qed

subsection \<open>Task identifiers and the requests\<close>

lemma digits_value_snoc: "digits_value (ds @ [d]) = 10 * digits_value ds + d"
  by (simp add: digits_value_def)

lemma str_nat_value: "digits_value (map (\<lambda>c. c - 48) (str_nat n)) = n"
proof (induction n rule: str_nat.induct)
  case (1 n)
  show ?case
  proof (cases "n < 10")
    case True
    then show ?thesis by (subst str_nat.simps) (simp add: digits_value_def)
  next
    case False
    with 1 have "digits_value (map (\<lambda>c. c - 48) (str_nat (n div 10))) = n div 10" by simp
    with False show ?thesis by (subst str_nat.simps) (simp add: digits_value_snoc)
  qed
qed

lemma str_nat_inj: "str_nat m = str_nat n \<Longrightarrow> m = n"
  by (metis str_nat_value)

lemma str_nat_chars: "\<forall>c\<in>set (str_nat n). 48 \<le> c"
proof (induction n rule: str_nat.induct)
  case (1 n)
  show ?case
  proof (cases "n < 10")
    case True
    then show ?thesis by (subst str_nat.simps) simp
  next
    case False
    with 1 show ?thesis by (subst str_nat.simps) simp
  qed
qed

lemma str_nat_no_minus: "str_nat n \<noteq> 45 # s"
  using str_nat_chars[of n] by auto

lemma str_int_inj: "str_int i = str_int j \<Longrightarrow> i = j"
proof -
  assume h: "str_int i = str_int j"
  consider "i < 0" "j < 0" | "i < 0" "0 \<le> j" | "0 \<le> i" "j < 0" | "0 \<le> i" "0 \<le> j"
    by linarith
  then show ?thesis
  proof cases
    case 1
    with h have "nat (- i) = nat (- j)" by (simp add: str_int_def str_nat_inj)
    with 1 show ?thesis by simp
  next
    case 2
    with h str_nat_no_minus[of "nat j" "str_nat (nat (- i))"]
      str_nat_no_minus[of "nat i" "str_nat (nat (- j))"] show ?thesis
      by (auto simp add: str_int_def)
  next
    case 3
    with h str_nat_no_minus[of "nat j" "str_nat (nat (- i))"]
      str_nat_no_minus[of "nat i" "str_nat (nat (- j))"] show ?thesis
      by (auto simp add: str_int_def)
  next
    case 4
    with h have "nat i = nat j" by (simp add: str_int_def str_nat_inj)
    with 4 show ?thesis by simp
  qed
qed


lemma index_POST:
  "strip f \<noteq> [] \<Longrightarrow>
   index now (POST f) srv =
     (Redirect_result (str_int (int_of_float now)),
      srv\<lparr>results_store := (results_store srv)(str_int (int_of_float now) \<mapsto> Processing),
          threads := threads srv @
            [(take 10 (filter (\<lambda>t. t \<noteq> []) (map strip (split_on 10 (strip f)))),
              str_int (int_of_float now))]\<rparr>)"
  by (simp add: index_def Let_def)

lemma str_int_100: "str_int 100 = ascii ''100''"
  by (simp add: str_int_def ascii_def str_nat.simps[of 100] str_nat.simps[of 10]
      str_nat.simps[of 1] str_nat.simps[of "Suc 0"])

lemmas eval_strip = strip_def is_space_def whitespace_points_def ascii_def

lemma run_in_thread_eq:
  "run_in_thread w terms task_id st =
     Some (st(task_id \<mapsto>
       (case save_excel w
               \<lparr>summary_total =
                  sum_list (map (\<lambda>r. length (products r)) (map (term_result_of w) terms)),
                results = map (term_result_of w) terms\<rparr> of
          Inl e \<Rightarrow> Failed (str_of_error e)
        | Inr excel_path \<Rightarrow> Done excel_path)))"
  by (simp add: run_in_thread_def WebRobot_search_def search_report_eq split: sum.splits)

section \<open>PriceExtractor: the claims\<close>

text \<open>
  Claim C2, as stated, fails: on the text \<open>", "\<close> followed by the toman word the toman
  pattern matches with the literal \<open>","\<close>, \<^verbatim>\<open>float("")\<close> raises \<^verbatim>\<open>ValueError\<close>, and
  \<open>extract\<close> raises it instead of returning none.
\<close>

theorem extract_raises_on_comma_literal:
  "scan_pats (snd (patterns ! 0)) (translate digit_table [44, 32, 1578, 1608, 1605, 1575, 1606])
     = Some [44] \<and>
   PriceExtractor_extract [44, 32, 1578, 1608, 1605, 1575, 1606] = Inl float_error \<and>
   PriceExtractor_extract [44, 32, 1578, 1608, 1605, 1575, 1606] \<noteq> Inr None"
  by (simp add: eval_extract float_error_def)

text \<open>
  Claim C2, amended: \<open>extract\<close> returns none exactly when no currency pattern matches the
  text with its digits normalised; it raises exactly when the literal captured by the
  first pattern that matches, in the declared order, consists of commas only, and the
  exception is then the \<^verbatim>\<open>ValueError\<close> of \<^verbatim>\<open>float\<close>.
\<close>

theorem extract_none_or_float_error:
  "(PriceExtractor_extract text = Inr None \<longleftrightarrow>
      (\<forall>cp\<in>set patterns. scan_pats (snd cp) (translate digit_table text) = None)) \<and>
   ((\<exists>e. PriceExtractor_extract text = Inl e) \<longleftrightarrow>
      (\<exists>i g. i < length patterns \<and>
         scan_pats (snd (patterns ! i)) (translate digit_table text) = Some g \<and>
         (\<forall>j<i. scan_pats (snd (patterns ! j)) (translate digit_table text) = None) \<and>
         (\<forall>ch\<in>set g. ch = 44))) \<and>
   (\<forall>e. PriceExtractor_extract text = Inl e \<longrightarrow> e = float_error)"
proof -
  define t where "t = translate digit_table text"
  have ex: "PriceExtractor_extract text = scan_patterns patterns t"
    by (simp add: PriceExtractor_extract_def t_def)
  from scan_patterns_cases[of patterns t]
  show ?thesis
  proof
    assume none: "scan_patterns patterns t = Inr None \<and>
      (\<forall>cp\<in>set patterns. scan_pats (snd cp) t = None)"
    then have "\<not> (\<exists>i g. i < length patterns \<and> scan_pats (snd (patterns ! i)) t = Some g \<and>
         (\<forall>j<i. scan_pats (snd (patterns ! j)) t = None) \<and> (\<forall>ch\<in>set g. ch = 44))"
      by (metis nth_mem option.distinct(1))
    with none show ?thesis unfolding t_def[symmetric] ex by simp
  next
    assume "\<exists>i c pats g. i < length patterns \<and> patterns ! i = (c, pats) \<and>
      scan_pats pats t = Some g \<and> (\<forall>j<i. scan_pats (snd (patterns ! j)) t = None) \<and>
      scan_patterns patterns t = on_match c g"
    then obtain i c pats g where h: "i < length patterns" "patterns ! i = (c, pats)"
      "scan_pats pats t = Some g" "\<forall>j<i. scan_pats (snd (patterns ! j)) t = None"
      "scan_patterns patterns t = on_match c g" by blast
    have hi: "scan_pats (snd (patterns ! i)) t = Some g" using h(2,3) by simp
    have mem: "patterns ! i \<in> set patterns" using h(1) by simp
    have chars: "\<forall>ch\<in>set g. digit_or_comma ch"
      using patterns_group_chars[OF mem hi] .
    have c1: "scan_patterns patterns t \<noteq> Inr None" using h(5) on_match_not_None by simp
    have c1': "\<not> (\<forall>cp\<in>set patterns. scan_pats (snd cp) t = None)" using mem hi by force
    show ?thesis
    proof (cases "\<forall>ch\<in>set g. ch = 44")
      case True
      then have r: "scan_patterns patterns t = Inl float_error"
        using h(5) on_match_commas by simp
      have "\<exists>i g. i < length patterns \<and> scan_pats (snd (patterns ! i)) t = Some g \<and>
         (\<forall>j<i. scan_pats (snd (patterns ! j)) t = None) \<and> (\<forall>ch\<in>set g. ch = 44)"
        using h(1,4) hi True by blast
      with r c1' show ?thesis unfolding t_def[symmetric] ex by simp
    next
      case False
      then have "\<exists>ch\<in>set g. ch \<noteq> 44" by simp
      from on_match_digits[OF chars this, of c] obtain r where
        r: "scan_patterns patterns t = Inr (Some r)" using h(5) by auto
      have "\<not> (\<exists>k h. k < length patterns \<and> scan_pats (snd (patterns ! k)) t = Some h \<and>
         (\<forall>j<k. scan_pats (snd (patterns ! j)) t = None) \<and> (\<forall>ch\<in>set h. ch = 44))"
        using first_match_unique[OF h(1) hi h(4)] False by blast
      with r c1' show ?thesis unfolding t_def[symmetric] ex by simp
    qed
  qed
qed

text \<open>The amended claim C2 on a text without a price and on the text \<open>"$,"\<close>.\<close>

theorem extract_none_or_float_error_witness:
  "PriceExtractor_extract (ascii ''no price here'') = Inr None \<and>
   (\<exists>e. PriceExtractor_extract [36, 44] = Inl e)"
proof -
  have a: "\<forall>cp\<in>set patterns. scan_pats (snd cp) (translate digit_table (ascii ''no price here'')) = None"
    by (simp add: eval_extract)
  have b: "\<exists>i g. i < length patterns \<and>
         scan_pats (snd (patterns ! i)) (translate digit_table [36, 44]) = Some g \<and>
         (\<forall>j<i. scan_pats (snd (patterns ! j)) (translate digit_table [36, 44]) = None) \<and>
         (\<forall>ch\<in>set g. ch = 44)"
  proof (intro exI conjI)
    show "2 < length patterns" by (simp add: patterns_def)
    show "scan_pats (snd (patterns ! 2)) (translate digit_table [36, 44]) = Some [44]"
      by (simp add: eval_extract)
    show "\<forall>j<2. scan_pats (snd (patterns ! j)) (translate digit_table [36, 44]) = None"
      by (simp add: eval_extract less_2_cases_iff)
    show "\<forall>ch\<in>set [44::nat]. ch = 44" by simp
  qed
  from extract_none_or_float_error[of "ascii ''no price here''"] a
  have "PriceExtractor_extract (ascii ''no price here'') = Inr None" by blast
  moreover from extract_none_or_float_error[of "[36, 44]"] b
  have "\<exists>e. PriceExtractor_extract [36, 44] = Inl e" by blast
  ultimately show ?thesis by blast
qed

text \<open>
  Claim C7: when the pattern of exactly one currency matches the text and the captured
  literal has a digit, \<open>extract\<close> removes the commas, parses the digits as a float and
  returns it with the product of that float and the rate of the currency. When the rate
  is a whole number and the amount and the product are below \<open>2 ^ 53\<close>, both floats are
  exact: the amount, and the amount times the rate (1 for toman, 55000 for dollar).
\<close>

theorem extract_single_marker:
  assumes "(c, pats) \<in> set patterns"
    and "scan_pats pats (translate digit_table text) = Some g"
    and "\<forall>cp\<in>set patterns. cp \<noteq> (c, pats) \<longrightarrow>
           scan_pats (snd cp) (translate digit_table text) = None"
    and "\<exists>ch\<in>set g. is_decimal ch"
  shows "\<exists>ds. those (map unicode_decimal (strip_commas g)) = Some ds \<and>
     PriceExtractor_extract text =
       Inr (Some \<lparr>original = round_b64 (of_nat (digits_value ds)), currency = c,
                  toman = fmul (round_b64 (of_nat (digits_value ds))) (rates c)\<rparr>) \<and>
     (\<forall>m. rates c = Finite (of_nat m) \<longrightarrow> digits_value ds < 2 ^ 53 \<longrightarrow>
          digits_value ds * m < 2 ^ 53 \<longrightarrow>
          PriceExtractor_extract text =
            Inr (Some \<lparr>original = Finite (of_nat (digits_value ds)), currency = c,
                       toman = Finite (of_nat (digits_value ds * m))\<rparr>))"
proof -
  define t where "t = translate digit_table text"
  from assms(1) obtain i where i: "i < length patterns" "patterns ! i = (c, pats)"
    by (auto simp add: in_set_conv_nth)
  from scan_patterns_cases[of patterns t]
  have run: "scan_patterns patterns t = on_match c g"
  proof
    assume "scan_patterns patterns t = Inr None \<and>
      (\<forall>cp\<in>set patterns. scan_pats (snd cp) t = None)"
    with assms(1,2) show ?thesis by (force simp add: t_def)
  next
    assume "\<exists>i c pats g. i < length patterns \<and> patterns ! i = (c, pats) \<and>
      scan_pats pats t = Some g \<and> (\<forall>j<i. scan_pats (snd (patterns ! j)) t = None) \<and>
      scan_patterns patterns t = on_match c g"
    then obtain k c' pats' g' where h: "k < length patterns" "patterns ! k = (c', pats')"
      "scan_pats pats' t = Some g'" "scan_patterns patterns t = on_match c' g'" by blast
    have "patterns ! k \<in> set patterns" using h(1) by simp
    with assms(3) h(2,3) have "(c', pats') = (c, pats)" by (force simp add: t_def)
    with h(3,4) assms(2) show ?thesis by (simp add: t_def)
  qed
  have chars: "\<forall>ch\<in>set g. digit_or_comma ch"
    using patterns_group_chars[OF assms(1), of "translate digit_table text" g] assms(2) by simp
  from assms(4) comma_not_decimal have "\<exists>ch\<in>set g. ch \<noteq> 44" by metis
  from on_match_digits[OF chars this, of c] obtain ds where
    ds: "those (map unicode_decimal (strip_commas g)) = Some ds"
    and om: "on_match c g =
       Inr (Some \<lparr>original = round_b64 (of_nat (digits_value ds)), currency = c,
                  toman = fmul (round_b64 (of_nat (digits_value ds))) (rates c)\<rparr>)"
    by blast
  have ex: "PriceExtractor_extract text =
       Inr (Some \<lparr>original = round_b64 (of_nat (digits_value ds)), currency = c,
                  toman = fmul (round_b64 (of_nat (digits_value ds))) (rates c)\<rparr>)"
    using run om by (simp add: PriceExtractor_extract_def t_def)
  have exact: "PriceExtractor_extract text =
            Inr (Some \<lparr>original = Finite (of_nat (digits_value ds)), currency = c,
                       toman = Finite (of_nat (digits_value ds * m))\<rparr>)"
    if "rates c = Finite (of_nat m)" "digits_value ds < 2 ^ 53" "digits_value ds * m < 2 ^ 53"
    for m
    using ex that round_b64_of_nat[OF that(2)] fmul_of_nat[OF that(3)] by simp
  from ds ex exact show ?thesis by blast
qed

text \<open>
  Claim C7 on \<open>"15,000,000 "\<close> with the toman word, which yields 15,000,000, and on
  \<open>"$500"\<close>, which yields 27,500,000.
\<close>

theorem extract_single_marker_witness:
  "PriceExtractor_extract (ascii ''15,000,000 '' @ [1578, 1608, 1605, 1575, 1606]) =
     Inr (Some \<lparr>original = Finite 15000000, currency = Toman, toman = Finite 15000000\<rparr>) \<and>
   PriceExtractor_extract (ascii ''$500'') =
     Inr (Some \<lparr>original = Finite 500, currency = Dollar, toman = Finite 27500000\<rparr>)"
proof -
  let ?toman = "amount_then [1578, 1608, 1605, 1575, 1606]"
  let ?a = "ascii ''15,000,000 '' @ [1578, 1608, 1605, 1575, 1606]"
  let ?b = "ascii ''$500''"
  have a1: "(Toman, [?toman]) \<in> set patterns" by (simp add: patterns_def)
  have a2: "scan_pats [?toman] (translate digit_table ?a) = Some (ascii ''15,000,000'')"
    by (simp add: eval_extract)
  have a3: "\<forall>cp\<in>set patterns. cp \<noteq> (Toman, [?toman]) \<longrightarrow>
      scan_pats (snd cp) (translate digit_table ?a) = None"
    by (simp add: eval_extract)
  have a4: "\<exists>ch\<in>set (ascii ''15,000,000''). is_decimal ch"
    by (simp add: eval_extract)
  have a5: "those (map unicode_decimal (strip_commas (ascii ''15,000,000''))) =
      Some [1, 5, 0, 0, 0, 0, 0, 0]"
    by (simp add: eval_extract)
  have a6: "digits_value [1, 5, 0, 0, 0, 0, 0, 0] = 15000000" by (simp add: digits_value_def)
  have b1: "(Dollar, [dollar_pattern]) \<in> set patterns" by (simp add: patterns_def)
  have b2: "scan_pats [dollar_pattern] (translate digit_table ?b) = Some (ascii ''500'')"
    by (simp add: eval_extract)
  have b3: "\<forall>cp\<in>set patterns. cp \<noteq> (Dollar, [dollar_pattern]) \<longrightarrow>
      scan_pats (snd cp) (translate digit_table ?b) = None"
    by (simp add: eval_extract)
  have b4: "\<exists>ch\<in>set (ascii ''500''). is_decimal ch"
    by (simp add: eval_extract)
  have b5: "those (map unicode_decimal (strip_commas (ascii ''500''))) = Some [5, 0, 0]"
    by (simp add: eval_extract)
  have b6: "digits_value [5, 0, 0] = 500" by (simp add: digits_value_def)
  from extract_single_marker[OF a1 a2 a3 a4] a5 a6
  have "\<forall>m. rates Toman = Finite (of_nat m) \<longrightarrow> (15000000::nat) < 2 ^ 53 \<longrightarrow>
          15000000 * m < 2 ^ 53 \<longrightarrow>
          PriceExtractor_extract ?a =
            Inr (Some \<lparr>original = Finite (of_nat 15000000), currency = Toman,
                       toman = Finite (of_nat (15000000 * m))\<rparr>)"
    by auto
  from this[rule_format, of 1] have A: "PriceExtractor_extract ?a =
     Inr (Some \<lparr>original = Finite 15000000, currency = Toman, toman = Finite 15000000\<rparr>)"
    by simp
  from extract_single_marker[OF b1 b2 b3 b4] b5 b6
  have "\<forall>m. rates Dollar = Finite (of_nat m) \<longrightarrow> (500::nat) < 2 ^ 53 \<longrightarrow>
          500 * m < 2 ^ 53 \<longrightarrow>
          PriceExtractor_extract ?b =
            Inr (Some \<lparr>original = Finite (of_nat 500), currency = Dollar,
                       toman = Finite (of_nat (500 * m))\<rparr>)"
    by auto
  from this[rule_format, of 55000] have B: "PriceExtractor_extract ?b =
     Inr (Some \<lparr>original = Finite 500, currency = Dollar, toman = Finite 27500000\<rparr>)"
    by simp
  from A B show ?thesis by simp
qed

text \<open>
  Claim C8: the first currency, in the order in which \<open>patterns\<close> declares them, whose
  pattern matches anywhere in the text decides the result, whatever later declared
  patterns match and wherever in the text they match.
\<close>

theorem extract_declared_order:
  assumes "i < length patterns" "patterns ! i = (c, pats)"
    and "scan_pats pats (translate digit_table text) = Some g"
    and "\<forall>j<i. scan_pats (snd (patterns ! j)) (translate digit_table text) = None"
  shows "PriceExtractor_extract text = on_match c g \<and>
    (\<forall>r. PriceExtractor_extract text = Inr (Some r) \<longrightarrow> currency r = c)"
proof -
  have "PriceExtractor_extract text = on_match c g"
    using scan_patterns_first[OF assms] by (simp add: PriceExtractor_extract_def)
  then show ?thesis using on_match_Some[of c g] by auto
qed

text \<open>
  Claim C8 on a text where the dollar marker comes first in the text and the toman
  marker second: the reading is the toman one.
\<close>

theorem extract_declared_order_witness:
  "re_search dollar_pattern (translate digit_table (ascii ''$5 or 10 '' @ [1578, 1608, 1605, 1575, 1606]))
     = Some (ascii ''5'') \<and>
   PriceExtractor_extract (ascii ''$5 or 10 '' @ [1578, 1608, 1605, 1575, 1606]) =
     Inr (Some \<lparr>original = Finite 10, currency = Toman, toman = Finite 10\<rparr>)"
proof -
  let ?text = "ascii ''$5 or 10 '' @ [1578, 1608, 1605, 1575, 1606]"
  have d: "re_search dollar_pattern (translate digit_table ?text) = Some (ascii ''5'')"
    by (simp add: eval_extract)
  have 0: "0 < length patterns" by (simp add: patterns_def)
  have 1: "patterns ! 0 = (Toman, [amount_then [1578, 1608, 1605, 1575, 1606]])"
    by (simp add: patterns_def)
  have 2: "scan_pats [amount_then [1578, 1608, 1605, 1575, 1606]] (translate digit_table ?text)
     = Some (ascii ''10'')"
    by (simp add: eval_extract)
  have 3: "\<forall>j<0. scan_pats (snd (patterns ! j)) (translate digit_table ?text) = None"
    by simp
  have 4: "on_match Toman (ascii ''10'') =
     Inr (Some \<lparr>original = Finite 10, currency = Toman, toman = Finite 10\<rparr>)"
    by (simp add: eval_extract eval_float)
  from extract_declared_order[OF 0 1 2 3] 4 d show ?thesis by simp
qed

text \<open>
  Claim C10: in every reading that \<open>extract\<close> returns, the original amount and the
  converted price are not negative, and the rate of its currency is positive.
\<close>

theorem extract_reading_nonneg:
  "PriceExtractor_extract text = Inr (Some r) \<Longrightarrow>
   fnonneg (original r) \<and> fnonneg (toman r) \<and>
   (\<exists>b. rates (currency r) = Finite b \<and> 0 < b)"
proof -
  assume "PriceExtractor_extract text = Inr (Some r)"
  from extract_Some_on_match[OF this] obtain c g where "on_match c g = Inr (Some r)" by blast
  from on_match_Some[OF this] have o: "fnonneg (original r)" and c: "currency r = c"
    and t: "toman r = fmul (original r) (rates c)" by auto
  from rates_positive[of c] obtain b where b: "rates c = Finite b" "0 < b" by blast
  from fmul_nonneg[OF o b(2)] t b(1) have "fnonneg (toman r)" by simp
  with o c b show ?thesis by simp
qed

text \<open>Claim C10 on the text \<open>"$500"\<close>.\<close>

theorem extract_reading_nonneg_witness:
  "PriceExtractor_extract (ascii ''$500'') =
     Inr (Some \<lparr>original = Finite 500, currency = Dollar, toman = Finite 27500000\<rparr>) \<and>
   fnonneg (Finite 500) \<and> fnonneg (Finite 27500000) \<and>
   (\<exists>b. rates Dollar = Finite b \<and> 0 < b)"
proof -
  have h: "PriceExtractor_extract (ascii ''$500'') =
     Inr (Some \<lparr>original = Finite 500, currency = Dollar, toman = Finite 27500000\<rparr>)"
    by (simp add: eval_extract eval_float)
  from extract_reading_nonneg[OF h] h show ?thesis by simp
qed

section \<open>Analyzer and WebRobot: the claims\<close>

text \<open>
  Claim C6: on the empty product list \<open>Analyzer.run\<close> returns a dictionary whose total is
  0 and which has no minimum, maximum, mean and median (the keys are absent, not zero),
  without any reduction of an empty column; on three products with the prices 10, 20 and
  30 the total is 3, the minimum 10, the maximum 30, the mean 20 and the median 20.
\<close>

theorem Analyzer_run_empty_and_sample:
  "Analyzer_run [] =
     \<lparr>total = 0, min_value = None, max_value = None, mean_value = None,
      median_value = None\<rparr> \<and>
   (map price ps = [Finite 10, Finite 20, Finite 30] \<longrightarrow>
    Analyzer_run ps =
      \<lparr>total = 3, min_value = Some (Finite 10), max_value = Some (Finite 30),
       mean_value = Some (Finite 20), median_value = Some (Finite 20)\<rparr>)"
proof -
  have e: "Analyzer_run [] =
     \<lparr>total = 0, min_value = None, max_value = None, mean_value = None,
      median_value = None\<rparr>"
    by (simp add: Analyzer_run_def)
  have s: "Analyzer_run ps =
      \<lparr>total = 3, min_value = Some (Finite 10), max_value = Some (Finite 30),
       mean_value = Some (Finite 20), median_value = Some (Finite 20)\<rparr>"
    if h: "map price ps = [Finite 10, Finite 20, Finite 30]"
  proof -
    from h have ne: "ps \<noteq> []" by auto
    have mn: "series_min [Finite 10, Finite 20, Finite 30] = Finite 10" by simp
    have mx: "series_max [Finite 10, Finite 20, Finite 30] = Finite 30" by simp
    have s1: "fadd (Finite 0) (Finite 10) = Finite 10" by (simp add: eval_float)
    have s2: "fadd (Finite 10) (Finite 20) = Finite 30" by (simp add: eval_float)
    have s3: "fadd (Finite 30) (Finite 30) = Finite 60" by (simp add: eval_float)
    have s4: "fdiv (Finite 60) (Finite 3) = Finite 20" by (simp add: fdiv_def eval_float)
    have me: "series_mean [Finite 10, Finite 20, Finite 30] = Finite 20"
      by (simp add: series_mean_def s1 s2 s3 s4 del: fadd.simps)
    have md: "series_median [Finite 10, Finite 20, Finite 30] = Finite 20"
      by (simp add: series_median_def fsort_def)
    show ?thesis using ne by (simp add: Analyzer_run_def h mn mx me md Let_def del: series_min.simps series_max.simps)
  qed
  from e s show ?thesis by blast
qed

text \<open>Claim C6 on three sample products with the prices 10, 20 and 30.\<close>

theorem Analyzer_run_empty_and_sample_witness:
  "map price [sample_product (Finite 10), sample_product (Finite 20), sample_product (Finite 30)]
     = [Finite 10, Finite 20, Finite 30] \<and>
   Analyzer_run [sample_product (Finite 10), sample_product (Finite 20), sample_product (Finite 30)] =
      \<lparr>total = 3, min_value = Some (Finite 10), max_value = Some (Finite 30),
       mean_value = Some (Finite 20), median_value = Some (Finite 20)\<rparr>"
proof -
  have h: "map price [sample_product (Finite 10), sample_product (Finite 20), sample_product (Finite 30)]
     = [Finite 10, Finite 20, Finite 30]"
    by (simp add: sample_product_def)
  from Analyzer_run_empty_and_sample[of "[sample_product (Finite 10), sample_product (Finite 20), sample_product (Finite 30)]"] h
  show ?thesis by blast
qed

text \<open>
  Claim C9: every product that \<open>_fetch_one\<close> builds, for any URL, has the country
  \<open>"Iran"\<close>, and so has every product of every report.
\<close>

theorem every_product_country_Iran:
  "(\<forall>p\<in>set (WebRobot_fetch_one w u). country p = ascii ''Iran'') \<and>
   (\<forall>rep. search_report w terms = Some rep \<longrightarrow>
      (\<forall>r\<in>set (results rep). \<forall>p\<in>set (products r). country p = ascii ''Iran''))"
  using fetch_one_country by (auto simp add: search_report_eq term_result_of_def)

text \<open>
  Claim C9 on the amazon.com URL of the term \<open>"phone"\<close> in the sample world: the fetch
  yields a product of the site \<open>www.amazon.com\<close>, with the country \<open>"Iran"\<close>.
\<close>

theorem every_product_country_Iran_witness:
  "WebRobot_fetch_one sample_world (urls (ascii ''phone'') ! 2) \<noteq> [] \<and>
   website (hd (WebRobot_fetch_one sample_world (urls (ascii ''phone'') ! 2))) =
     ascii ''www.amazon.com'' \<and>
   country (hd (WebRobot_fetch_one sample_world (urls (ascii ''phone'') ! 2))) =
     ascii ''Iran''"
proof -
  let ?ps = "WebRobot_fetch_one sample_world (urls (ascii ''phone'') ! 2)"
  have ne: "?ps \<noteq> []" by (simp add: sample_amazon)
  then have "hd ?ps \<in> set ?ps" by simp
  with every_product_country_Iran[of sample_world "urls (ascii ''phone'') ! 2" "[]"]
  have "country (hd ?ps) = ascii ''Iran''" by blast
  moreover have "website (hd ?ps) = ascii ''www.amazon.com''" by (simp add: sample_amazon)
  ultimately show ?thesis using ne by simp
qed

text \<open>
  Claim C5: for every list of terms and every world, whatever the instants at which the
  fetches complete, the search builds a report with one entry per term, in the order of
  the terms, and its total is the sum of the numbers of products of its entries.
\<close>

theorem report_entries_in_term_order:
  "\<exists>rep. search_report w terms = Some rep \<and>
     length (results rep) = length terms \<and>
     map search_term (results rep) = terms \<and>
     summary_total rep = sum_list (map (\<lambda>r. length (products r)) (results rep)) \<and>
     (\<forall>f. search_report (w\<lparr>finished_at := f\<rparr>) terms = Some rep)"
  by (simp add: search_report_eq term_result_of_finished_at)
    (simp add: term_result_of_def comp_def)

text \<open>
  Claim C5 on two terms in the sample world, with the fetches completing in one order and
  in the reverse order.
\<close>

theorem report_entries_in_term_order_witness:
  "\<exists>rep. search_report sample_world [ascii ''phone'', ascii ''laptop''] = Some rep \<and>
     length (results rep) = 2 \<and>
     map search_term (results rep) = [ascii ''phone'', ascii ''laptop''] \<and>
     search_report (sample_world\<lparr>finished_at := (\<lambda>u. 100 - length u)\<rparr>)
       [ascii ''phone'', ascii ''laptop''] = Some rep"
proof -
  from report_entries_in_term_order[of sample_world "[ascii ''phone'', ascii ''laptop'']"]
  obtain rep where h: "search_report sample_world [ascii ''phone'', ascii ''laptop''] = Some rep \<and>
     length (results rep) = length [ascii ''phone'', ascii ''laptop''] \<and>
     map search_term (results rep) = [ascii ''phone'', ascii ''laptop''] \<and>
     summary_total rep = sum_list (map (\<lambda>r. length (products r)) (results rep)) \<and>
     (\<forall>f. search_report (sample_world\<lparr>finished_at := f\<rparr>) [ascii ''phone'', ascii ''laptop'']
       = Some rep)" ..
  then have "search_report sample_world [ascii ''phone'', ascii ''laptop''] = Some rep \<and>
     length (results rep) = 2 \<and>
     map search_term (results rep) = [ascii ''phone'', ascii ''laptop''] \<and>
     search_report (sample_world\<lparr>finished_at := (\<lambda>u. 100 - length u)\<rparr>)
       [ascii ''phone'', ascii ''laptop''] = Some rep"
    by simp
  then show ?thesis ..
qed

text \<open>
  Claim C4: when the request for one of the URLs of a term raises (an error or a
  timeout), \<open>_fetch_one\<close> returns the empty list for it, the products of the term are
  those of the other URLs, in their order, and the batch reaches the export; when the
  export returns a path, the entry of the task is written with the status \<open>"done"\<close>.
\<close>

theorem fetch_failure_absorbed:
  assumes "k < length (urls term)" and "scrape w (urls term ! k) = Inl e"
    and "term \<in> set terms"
  shows "WebRobot_fetch_one w (urls term ! k) = [] \<and>
    (\<exists>r. search_term_result w term = Some r \<and>
       products r =
         concat (map (WebRobot_fetch_one w) (take k (urls term) @ drop (Suc k) (urls term)))) \<and>
    (\<exists>rep. search_report w terms = Some rep \<and>
       (\<exists>r\<in>set (results rep). search_term r = term \<and>
          products r =
            concat (map (WebRobot_fetch_one w) (take k (urls term) @ drop (Suc k) (urls term)))) \<and>
       (\<forall>path. save_excel w rep = Inr path \<longrightarrow>
          (\<exists>st'. run_in_thread w terms task_id st = Some st' \<and>
             st' task_id = Some (Done path) \<and>
             entry_status (Done path) = ascii ''done'')))"
proof -
  have f: "WebRobot_fetch_one w (urls term ! k) = []"
    using assms(2) by (simp add: WebRobot_fetch_one_def)
  have "urls term = take k (urls term) @ urls term ! k # drop (Suc k) (urls term)"
    using assms(1) by (simp add: id_take_nth_drop[symmetric])
  then have "concat (map (WebRobot_fetch_one w) (urls term)) =
    concat (map (WebRobot_fetch_one w) (take k (urls term) @ urls term ! k # drop (Suc k) (urls term)))"
    by simp
  also have "\<dots> = concat (map (WebRobot_fetch_one w) (take k (urls term) @ drop (Suc k) (urls term)))"
    using f by simp
  finally have p: "products (term_result_of w term) =
    concat (map (WebRobot_fetch_one w) (take k (urls term) @ drop (Suc k) (urls term)))"
    by (simp add: term_result_of_def)
  have 2: "\<exists>r. search_term_result w term = Some r \<and>
       products r =
         concat (map (WebRobot_fetch_one w) (take k (urls term) @ drop (Suc k) (urls term)))"
    using p by (simp add: search_term_result_eq term_result_of_def)
  let ?rep = "\<lparr>summary_total = sum_list (map (\<lambda>r. length (products r)) (map (term_result_of w) terms)),
           results = map (term_result_of w) terms\<rparr>"
  have r: "search_report w terms = Some ?rep" by (rule search_report_eq)
  have m: "\<exists>r\<in>set (results ?rep). search_term r = term \<and>
          products r =
            concat (map (WebRobot_fetch_one w) (take k (urls term) @ drop (Suc k) (urls term)))"
    using assms(3) p by (auto simp add: term_result_of_def intro!: bexI[of _ "term"])
  have d: "\<forall>path. save_excel w ?rep = Inr path \<longrightarrow>
          (\<exists>st'. run_in_thread w terms task_id st = Some st' \<and>
             st' task_id = Some (Done path) \<and>
             entry_status (Done path) = ascii ''done'')"
    by (simp add: run_in_thread_def WebRobot_search_def r)
  from f 2 r m d show ?thesis by blast
qed

text \<open>
  Claim C4 in the sample world, where the first source of \<open>"phone"\<close> times out: its
  products come from the second and third source, and the task ends as done.
\<close>

theorem fetch_failure_absorbed_witness:
  "scrape sample_world (urls (ascii ''phone'') ! 0) = Inl (ExternalError (ascii ''timeout'')) \<and>
   WebRobot_fetch_one sample_world (urls (ascii ''phone'') ! 0) = [] \<and>
   (\<exists>r. search_term_result sample_world (ascii ''phone'') = Some r \<and>
      products r = WebRobot_fetch_one sample_world (urls (ascii ''phone'') ! 1) @
                   WebRobot_fetch_one sample_world (urls (ascii ''phone'') ! 2)) \<and>
   (\<exists>st'. run_in_thread sample_world [ascii ''phone''] (ascii ''100'') Map.empty = Some st' \<and>
      st' (ascii ''100'') = Some (Done (ascii ''price_report.xlsx'')))"
proof -
  have k: "0 < length (urls (ascii ''phone''))" by (simp add: urls_def)
  have f: "scrape sample_world (urls (ascii ''phone'') ! 0) = Inl (ExternalError (ascii ''timeout''))"
    by (simp add: sample_world_def)
  have m: "ascii ''phone'' \<in> set [ascii ''phone'']" by simp
  have x: "save_excel sample_world rep = Inr (ascii ''price_report.xlsx'')" for rep
    by (simp add: sample_world_def)
  have t: "take 0 (urls (ascii ''phone'')) @ drop (Suc 0) (urls (ascii ''phone'')) =
    [urls (ascii ''phone'') ! 1, urls (ascii ''phone'') ! 2]"
    by (simp add: urls_def)
  from fetch_failure_absorbed[OF k f m, of "ascii ''100''" Map.empty] f x show ?thesis
    unfolding t by fastforce
qed

section \<open>The Flask application: the claims\<close>

text \<open>
  Claim C3, as stated, fails: two submissions whose clock readings are 100.25 and 100.75
  both receive the task identifier \<open>"100"\<close>, and the two threads they start write the
  same entry of the store.
\<close>

theorem same_second_submissions_collide:
  "fst (index (401 / 4) (POST (ascii ''phone'')) empty_server) = Redirect_result (ascii ''100'') \<and>
   fst (index (403 / 4) (POST (ascii ''laptop''))
          (snd (index (401 / 4) (POST (ascii ''phone'')) empty_server)))
     = Redirect_result (ascii ''100'') \<and>
   map snd (threads
          (snd (index (403 / 4) (POST (ascii ''laptop''))
                  (snd (index (401 / 4) (POST (ascii ''phone'')) empty_server)))))
     = [ascii ''100'', ascii ''100'']"
proof -
  have p: "strip (ascii ''phone'') \<noteq> []" by (simp add: eval_strip)
  have l: "strip (ascii ''laptop'') \<noteq> []" by (simp add: eval_strip)
  have a: "int_of_float (401 / 4) = 100" by (simp add: int_of_float_def)
  have b: "int_of_float (403 / 4) = 100" by (simp add: int_of_float_def)
  show ?thesis
    by (simp add: index_POST[OF p] index_POST[OF l] a b str_int_100 empty_server_def)
qed

text \<open>
  Claim C3, amended: the task identifier is the decimal text of the clock reading cut to
  whole seconds; two submissions whose readings differ in their whole seconds receive
  different identifiers, and the later one leaves the entry of the earlier one as it is.
\<close>

theorem submissions_in_distinct_seconds:
  assumes "int_of_float now1 \<noteq> int_of_float now2" and "strip f1 \<noteq> []" and "strip f2 \<noteq> []"
  shows "\<exists>id1 id2 s1 s2.
     index now1 (POST f1) s0 = (Redirect_result id1, s1) \<and>
     index now2 (POST f2) s1 = (Redirect_result id2, s2) \<and>
     id1 = str_int (int_of_float now1) \<and> id2 = str_int (int_of_float now2) \<and>
     id1 \<noteq> id2 \<and>
     results_store s1 id1 = Some Processing \<and>
     results_store s2 id1 = results_store s1 id1 \<and>
     results_store s2 id2 = Some Processing"
proof -
  have ne: "str_int (int_of_float now1) \<noteq> str_int (int_of_float now2)"
    using assms(1) str_int_inj by blast
  show ?thesis
    unfolding index_POST[OF assms(2)] index_POST[OF assms(3)]
    using ne by simp
qed

text \<open>The amended claim C3 on submissions at 100.25 and 101.25.\<close>

theorem submissions_in_distinct_seconds_witness:
  "int_of_float (401 / 4) \<noteq> int_of_float (405 / 4) \<and>
   (\<exists>id1 id2 s1 s2.
     index (401 / 4) (POST (ascii ''phone'')) empty_server = (Redirect_result id1, s1) \<and>
     index (405 / 4) (POST (ascii ''laptop'')) s1 = (Redirect_result id2, s2) \<and>
     id1 \<noteq> id2 \<and>
     results_store s2 id1 = Some Processing \<and>
     results_store s2 id2 = Some Processing)"
proof -
  have h: "int_of_float (401 / 4) \<noteq> int_of_float (405 / 4)" by (simp add: int_of_float_def)
  have p: "strip (ascii ''phone'') \<noteq> []" by (simp add: eval_strip)
  have l: "strip (ascii ''laptop'') \<noteq> []" by (simp add: eval_strip)
  from submissions_in_distinct_seconds[OF h p l, of empty_server]
  obtain id1 id2 s1 s2 where r:
    "index (401 / 4) (POST (ascii ''phone'')) empty_server = (Redirect_result id1, s1) \<and>
     index (405 / 4) (POST (ascii ''laptop'')) s1 = (Redirect_result id2, s2) \<and>
     id1 = str_int (int_of_float (401 / 4)) \<and> id2 = str_int (int_of_float (405 / 4)) \<and>
     id1 \<noteq> id2 \<and>
     results_store s1 id1 = Some Processing \<and>
     results_store s2 id1 = results_store s1 id1 \<and>
     results_store s2 id2 = Some Processing"
    by (elim exE)
  then have "index (401 / 4) (POST (ascii ''phone'')) empty_server = (Redirect_result id1, s1) \<and>
     index (405 / 4) (POST (ascii ''laptop'')) s1 = (Redirect_result id2, s2) \<and>
     id1 \<noteq> id2 \<and>
     results_store s2 id1 = Some Processing \<and>
     results_store s2 id2 = Some Processing"
    by metis
  then have "\<exists>id1 id2 s1 s2.
     index (401 / 4) (POST (ascii ''phone'')) empty_server = (Redirect_result id1, s1) \<and>
     index (405 / 4) (POST (ascii ''laptop'')) s1 = (Redirect_result id2, s2) \<and>
     id1 \<noteq> id2 \<and>
     results_store s2 id1 = Some Processing \<and>
     results_store s2 id2 = Some Processing"
    by (intro exI)
  with h show ?thesis by (rule conjI)
qed

text \<open>
  Claim C1 on the code: for an unknown identifier \<open>api_status\<close> answers \<open>"not_found"\<close>
  with 404, but for a task that has just been submitted it answers with the status
  \<open>"done"\<close>, and so it does for a task that has failed; the status of the task is only
  inside the entry under \<open>"report"\<close>. The function reads the store and returns no new
  one.
\<close>

theorem api_status_done_for_every_entry:
  "api_status (ascii ''100'') (snd (index 100 (POST (ascii ''phone'')) empty_server)) =
     (\<lparr>status = ascii ''done'', report_field = Some Processing\<rparr>, 200) \<and>
   map_option (api_status (ascii ''100''))
     (thread_finishes failing_export_world 0
        (snd (index 100 (POST (ascii ''phone'')) empty_server))) =
     Some (\<lparr>status = ascii ''done'', report_field = Some (Failed (ascii ''disk full''))\<rparr>, 200) \<and>
   api_status (ascii ''101'') (snd (index 100 (POST (ascii ''phone'')) empty_server)) =
     (\<lparr>status = ascii ''not_found'', report_field = None\<rparr>, 404)"
proof -
  have p: "strip (ascii ''phone'') \<noteq> []" by (simp add: eval_strip)
  have a: "int_of_float 100 = 100" by (simp add: int_of_float_def)
  have n: "ascii ''101'' \<noteq> ascii ''100''" by (simp add: ascii_def)
  have x: "save_excel failing_export_world rep = Inl (ExternalError (ascii ''disk full''))" for rep
    by (simp add: failing_export_world_def)
  show ?thesis
    using n
    by (simp add: index_POST[OF p] a str_int_100 empty_server_def api_status_def
        thread_finishes_def run_in_thread_eq x)
qed

end
